theory Spec2Isabelle
  imports Main "HOL-Library.Sublist"
begin

section \<open>Python strings\<close>

text \<open>
  A Python \<^verbatim>\<open>str\<close> is a sequence of Unicode code points. The exchange-rate table of
  \<^verbatim>\<open>streamlit_scraper.py\<close> has keys with code points above 255 (U+201A), so a string is
  modelled as a list of code points, not of bytes. \<open>u ''abc''\<close> is the literal.
\<close>

type_synonym ustr = "nat list"

abbreviation (input) u :: "string \<Rightarrow> ustr" where
  "u s \<equiv> map of_char s"

text \<open>\<^verbatim>\<open>sub in s\<close>: a contiguous occurrence of \<open>sub\<close> in \<open>s\<close>.\<close>

fun contains :: "'a list \<Rightarrow> 'a list \<Rightarrow> bool" where
  "contains sub [] = (sub = [])"
| "contains sub (c # cs) = (prefix sub (c # cs) \<or> contains sub cs)"

text \<open>\<^verbatim>\<open>s.startswith(p)\<close> and \<^verbatim>\<open>s.endswith(p)\<close>.\<close>

definition startswith :: "'a list \<Rightarrow> 'a list \<Rightarrow> bool" where
  "startswith s p = prefix p s"

definition endswith :: "'a list \<Rightarrow> 'a list \<Rightarrow> bool" where
  "endswith s p = suffix p s"

text \<open>
  \<^verbatim>\<open>s.split(sep, 1)\<close> for a non-empty separator: \<open>None\<close> when \<open>sep\<close> does not occur
  (Python returns the one-element list \<^verbatim>\<open>[s]\<close>), otherwise the text before and the text after
  the first occurrence. \<^verbatim>\<open>s.split(sep)[0]\<close> is the first component.
\<close>

fun split_first :: "'a list \<Rightarrow> 'a list \<Rightarrow> ('a list \<times> 'a list) option" where
  "split_first sep [] = (if sep = [] then Some ([], []) else None)"
| "split_first sep (c # cs) =
     (if prefix sep (c # cs) then Some ([], drop (length sep) (c # cs))
      else (case split_first sep cs of
              None \<Rightarrow> None
            | Some (a, b) \<Rightarrow> Some (c # a, b)))"

text \<open>\<^verbatim>\<open>s.split(c)\<close> for a separator of one character, as in \<^verbatim>\<open>query_part.split("&")\<close>.\<close>

fun split_on :: "'a \<Rightarrow> 'a list \<Rightarrow> 'a list list" where
  "split_on c [] = [[]]"
| "split_on c (x # xs) =
     (if x = c then [] # split_on c xs
      else (case split_on c xs of
              [] \<Rightarrow> [[x]]
            | p # ps \<Rightarrow> (x # p) # ps))"

text \<open>\<^verbatim>\<open>sep.join(parts)\<close>.\<close>

fun join :: "'a list \<Rightarrow> 'a list list \<Rightarrow> 'a list" where
  "join sep [] = []"
| "join sep [p] = p"
| "join sep (p # q # ps) = p @ sep @ join sep (q # ps)"

text \<open>\<^verbatim>\<open>str(n)\<close> for an \<^verbatim>\<open>int\<close>: decimal digits, with a minus sign below zero.\<close>

fun str_nat :: "nat \<Rightarrow> ustr" where
  "str_nat n = (if n < 10 then [48 + n] else str_nat (n div 10) @ [48 + n mod 10])"

declare str_nat.simps [simp del]

definition str_int :: "int \<Rightarrow> ustr" where
  "str_int i = (if i < 0 then 45 # str_nat (nat (- i)) else str_nat (nat i))"

section \<open>The page as the scraper sees it\<close>

text \<open>
  BeautifulSoup is not part of the repository: a fetched page is modelled by what the
  selectors of the source return on it. \<open>attrs\<close> is the attribute dictionary of an element.
\<close>

type_synonym attrs = "ustr \<rightharpoonup> ustr"

record container =
  title_elem :: "ustr option"
  price_elem :: "ustr option"
  link_elem :: "attrs option"
  image_elem :: "attrs option"
  picture_elem :: "attrs option option"
  all_imgs :: "attrs list"

record dom =
  s_items :: "container list"
  pagination_items :: bool
  pagination_next :: "attrs option"

text \<open>
  \<^verbatim>\<open>response.text\<close>: the empty string (falsy), or a text with its parsed tree.
  \<^verbatim>\<open>html_content\<close> is \<open>None\<close> when \<^verbatim>\<open>get_page\<close> gave up.
\<close>

datatype html = Blank | Doc dom

fun truthy :: "html option \<Rightarrow> bool" where
  "truthy (Some (Doc soup)) = True"
| "truthy _ = False"

record product =
  title :: ustr
  price :: ustr
  product_url :: ustr
  image_url :: "ustr option"

record scraper =
  base_url :: ustr
  products :: "product list"
  status_updates :: "ustr list"
  is_running :: bool
  progress :: nat

section \<open>\<^verbatim>\<open>EbayScraper.__init__\<close>\<close>

definition init :: "ustr \<Rightarrow> scraper" where
  "init url =
     \<lparr>base_url = (if contains (u ''?'') url then url @ u ''&_ccy=1&_fmt=US&_dmd=1''
                  else url @ u ''?_ccy=1&_fmt=US&_dmd=1''),
      products = [], status_updates = [], is_running = False, progress = 0\<rparr>"

section \<open>\<^verbatim>\<open>EbayScraper.get_next_page_url\<close>\<close>

text \<open>
  The pagination control of lines 234-238: a \<^verbatim>\<open>.pagination__next\<close> element with an
  \<^verbatim>\<open>href\<close>, looked for only when \<^verbatim>\<open>.pagination__items\<close> selects something.
\<close>

definition next_button_href :: "dom \<Rightarrow> ustr option" where
  "next_button_href soup =
     (if pagination_items soup then
        (case pagination_next soup of
           None \<Rightarrow> None
         | Some next_button \<Rightarrow> next_button (u ''href''))
      else None)"

text \<open>
  \<^verbatim>\<open>urllib.parse.urljoin\<close> is library code and is a parameter. \<open>unresolved\<close> is not a
  model of it: it hands the reference back as it is, and stands where a concrete function
  has to be named but is never applied, on pages without a pagination control.
\<close>

definition unresolved :: "ustr \<Rightarrow> ustr \<Rightarrow> ustr" where
  "unresolved base href = href"

definition set_pgn :: "int \<Rightarrow> ustr \<Rightarrow> ustr" where
  "set_pgn current_page_number param =
     (if contains (u ''_pgn='') param then u ''_pgn='' @ str_int (current_page_number + 1)
      else param)"

definition get_next_page_url ::
  "(ustr \<Rightarrow> ustr \<Rightarrow> ustr) \<Rightarrow> ustr \<Rightarrow> html option \<Rightarrow> int \<Rightarrow> ustr option" where
  "get_next_page_url urljoin base html_content current_page_number =
     (case html_content of
        None \<Rightarrow> None
      | Some Blank \<Rightarrow> None
      | Some (Doc soup) \<Rightarrow>
          (case next_button_href soup of
             Some href \<Rightarrow> Some (urljoin base href)
           | None \<Rightarrow>
               (case split_first (u ''?'') base of
                  None \<Rightarrow> None
                | Some (base_part, query_part) \<Rightarrow>
                    if contains (u ''_pgn='') query_part then
                      Some (base_part @ u ''?'' @
                            join (u ''&'') (map (set_pgn current_page_number)
                                              (split_on 38 query_part)))
                    else Some (base @ u ''&_pgn='' @ str_int (current_page_number + 1)))))"

text \<open>A page on which no pagination element is selected.\<close>

definition no_pagination :: dom where
  "no_pagination = \<lparr>s_items = [], pagination_items = False, pagination_next = None\<rparr>"

section \<open>Python floats\<close>

text \<open>
  A Python \<^verbatim>\<open>float\<close> is an IEEE 754 binary64 number. Only non-negative values arise in the
  scraper: a number is read from a match of \<^verbatim>\<open>[\d,.]+\<close>, which has no sign, and is divided by
  a positive rate. \<open>Fin m e\<close> is the finite double \<open>m * 2 ^ e\<close> in its canonical form: either
  \<open>2 ^ 52 \<le> m < 2 ^ 53\<close> and \<open>- 1074 \<le> e \<le> 971\<close>, or \<open>m < 2 ^ 52\<close> and \<open>e = - 1074\<close>
  (zero and the subnormal numbers). Exact non-negative rationals are fractions \<open>n / d\<close> of
  naturals with \<open>0 < d\<close>, so that every operation computes with \<open>div\<close> and \<open>mod\<close>.
\<close>

datatype pyfloat = Fin nat int | Inf | NaN

datatype exn = ZeroDivisionError

text \<open>The exact value of \<open>Fin m e\<close>, as numerator and denominator.\<close>

definition frac_of :: "nat \<Rightarrow> int \<Rightarrow> nat \<times> nat" where
  "frac_of m e = (if 0 \<le> e then (m * 2 ^ nat e, 1) else (m, 2 ^ nat (- e)))"

text \<open>The integer nearest to \<open>n / d\<close>, a tie going to the even one.\<close>

definition round_half_even :: "nat \<Rightarrow> nat \<Rightarrow> nat" where
  "round_half_even n d =
     (let q = n div d; r = n mod d
      in if 2 * r < d then q
         else if d < 2 * r then q + 1
         else if even q then q else q + 1)"

fun bitlen :: "nat \<Rightarrow> nat" where
  "bitlen n = (if n = 0 then 0 else Suc (bitlen (n div 2)))"

declare bitlen.simps [simp del]

fun declen :: "nat \<Rightarrow> nat" where
  "declen n = (if n < 10 then 1 else Suc (declen (n div 10)))"

declare declen.simps [simp del]

text \<open>For \<open>0 < n\<close> and \<open>0 < d\<close>: the \<open>k\<close> with \<open>2 ^ k \<le> n / d < 2 ^ (k + 1)\<close>, and the same in base ten.\<close>

definition ilog2 :: "nat \<Rightarrow> nat \<Rightarrow> int" where
  "ilog2 n d =
     (let k = int (bitlen n) - int (bitlen d)
      in if (if 0 \<le> k then d * 2 ^ nat k \<le> n else d \<le> n * 2 ^ nat (- k)) then k else k - 1)"

definition ilog10 :: "nat \<Rightarrow> nat \<Rightarrow> int" where
  "ilog10 n d =
     (let k = int (declen n) - int (declen d)
      in if (if 0 \<le> k then d * 10 ^ nat k \<le> n else d \<le> n * 10 ^ nat (- k)) then k else k - 1)"

text \<open>
  \<open>rne n d\<close>: the double nearest to \<open>n / d\<close>, a tie going to the even significand, and
  infinity from \<open>2 ^ 1024 - 2 ^ 970\<close> on. This is how \<^verbatim>\<open>float(str)\<close>, a float literal and
  every arithmetic operation round.
\<close>

definition rne :: "nat \<Rightarrow> nat \<Rightarrow> pyfloat" where
  "rne n d =
     (if n = 0 then Fin 0 (- 1074)
      else
        let e = max (ilog2 n d) (- 1022) - 52;
            m = (if 0 \<le> e then round_half_even n (d * 2 ^ nat e)
                 else round_half_even (n * 2 ^ nat (- e)) d);
            m' = (if m = 2 ^ 53 then 2 ^ 52 else m);
            e' = (if m = 2 ^ 53 then e + 1 else e)
        in if 971 < e' then Inf else Fin m' e')"

text \<open>\<^verbatim>\<open>x / y\<close> and \<^verbatim>\<open>x + y\<close> on floats.\<close>

fun truediv :: "pyfloat \<Rightarrow> pyfloat \<Rightarrow> exn + pyfloat" where
  "truediv x (Fin m2 e2) =
     (if m2 = 0 then Inl ZeroDivisionError
      else (case x of
              Fin m1 e1 \<Rightarrow>
                Inr (if e2 \<le> e1 then rne (m1 * 2 ^ nat (e1 - e2)) m2
                     else rne m1 (m2 * 2 ^ nat (e2 - e1)))
            | Inf \<Rightarrow> Inr Inf
            | NaN \<Rightarrow> Inr NaN))"
| "truediv (Fin m1 e1) Inf = Inr (Fin 0 (- 1074))"
| "truediv Inf Inf = Inr NaN"
| "truediv NaN Inf = Inr NaN"
| "truediv x NaN = Inr NaN"

fun fadd :: "pyfloat \<Rightarrow> pyfloat \<Rightarrow> pyfloat" where
  "fadd (Fin m1 e1) (Fin m2 e2) =
     (if e2 \<le> e1 then
        rne (fst (frac_of (m1 * 2 ^ nat (e1 - e2) + m2) e2))
            (snd (frac_of (m1 * 2 ^ nat (e1 - e2) + m2) e2))
      else
        rne (fst (frac_of (m1 + m2 * 2 ^ nat (e2 - e1)) e1))
            (snd (frac_of (m1 + m2 * 2 ^ nat (e2 - e1)) e1)))"
| "fadd NaN y = NaN"
| "fadd x NaN = NaN"
| "fadd Inf y = Inf"
| "fadd x Inf = Inf"

text \<open>
  \<^verbatim>\<open>round(x, 1)\<close>. CPython writes \<open>x\<close> in decimal with one digit after the point, correctly
  rounded from the exact binary value with a tie going to the even digit, and reads the
  result back as a double. An infinity or a NaN is returned as it is. The
  \<^verbatim>\<open>OverflowError\<close> of CPython for a result out of range cannot come up with one decimal: a
  double that large is an integer and is its own rounding.
\<close>

fun round1 :: "pyfloat \<Rightarrow> pyfloat" where
  "round1 (Fin m e) =
     rne (round_half_even (fst (frac_of (10 * m) e)) (snd (frac_of (10 * m) e))) 10"
| "round1 Inf = Inf"
| "round1 NaN = NaN"

text \<open>
  \<^verbatim>\<open>repr(x)\<close>, which is also what an f-string writes for a float: the shortest decimal that
  reads back as \<open>x\<close>, the nearest to \<open>x\<close> among the shortest. \<open>scaled n d q\<close> is \<open>n / d / 10 ^ q\<close>
  and \<open>rne10 c q\<close> reads the decimal \<open>c * 10 ^ q\<close> back.
\<close>

definition scaled :: "nat \<Rightarrow> nat \<Rightarrow> int \<Rightarrow> nat \<times> nat" where
  "scaled n d q = (if 0 \<le> q then (n, d * 10 ^ nat q) else (n * 10 ^ nat (- q), d))"

definition rne10 :: "nat \<Rightarrow> int \<Rightarrow> pyfloat" where
  "rne10 c q = (if 0 \<le> q then rne (c * 10 ^ nat q) 1 else rne c (10 ^ nat (- q)))"

text \<open>
  The decimals with \<open>nd\<close> digits on either side of \<open>x = n / d\<close>, where \<open>k = ilog10 n d\<close>:
  the one that reads back as \<open>x\<close>, the nearer one when both do.
\<close>

definition try_digits :: "pyfloat \<Rightarrow> nat \<Rightarrow> nat \<Rightarrow> int \<Rightarrow> int \<Rightarrow> (nat \<times> int) option" where
  "try_digits x n d k nd =
     (let q = k - nd + 1;
          lo = fst (scaled n d q) div snd (scaled n d q);
          ok_lo = (rne10 lo q = x);
          ok_hi = (rne10 (lo + 1) q = x)
      in if ok_lo \<and> ok_hi then Some (round_half_even (fst (scaled n d q)) (snd (scaled n d q)), q)
         else if ok_lo then Some (lo, q)
         else if ok_hi then Some (lo + 1, q)
         else None)"

function shortest :: "pyfloat \<Rightarrow> nat \<Rightarrow> nat \<Rightarrow> int \<Rightarrow> int \<Rightarrow> nat \<times> int" where
  "shortest x n d k nd =
     (if 17 \<le> nd then
        (round_half_even (fst (scaled n d (k - 16))) (snd (scaled n d (k - 16))), k - 16)
      else (case try_digits x n d k nd of
              Some r \<Rightarrow> r
            | None \<Rightarrow> shortest x n d k (nd + 1)))"
  by pat_completeness auto
termination
  by (relation "measure (\<lambda>(x, n, d, k, nd). nat (17 - nd))") auto

declare shortest.simps [simp del]

text \<open>Trailing zeros are not digits of the result: \<open>10 * 10 ^ q\<close> is the digit 1.\<close>

fun strip_zeros :: "nat \<Rightarrow> int \<Rightarrow> nat \<times> int" where
  "strip_zeros c q = (if c \<noteq> 0 \<and> c mod 10 = 0 then strip_zeros (c div 10) (q + 1) else (c, q))"

declare strip_zeros.simps [simp del]

text \<open>
  The layout of \<^verbatim>\<open>repr\<close>: digits \<open>ds\<close> with the decimal point after the first \<open>decpt\<close> of
  them; exponent notation when \<open>decpt \<le> - 4\<close> or \<open>16 < decpt\<close>; \<^verbatim>\<open>.0\<close> added to an integer.
\<close>

definition exponent_str :: "int \<Rightarrow> ustr" where
  "exponent_str x =
     (if x < 0 then 45 else 43) #
     (if \<bar>x\<bar> < 10 then 48 # str_nat (nat \<bar>x\<bar>) else str_nat (nat \<bar>x\<bar>))"

definition format_repr :: "ustr \<Rightarrow> int \<Rightarrow> ustr" where
  "format_repr ds decpt =
     (if decpt \<le> - 4 \<or> 16 < decpt then
        take 1 ds @ (if 1 < length ds then 46 # drop 1 ds else []) @ [101] @
        exponent_str (decpt - 1)
      else if decpt \<le> 0 then u ''0.'' @ replicate (nat (- decpt)) 48 @ ds
      else if int (length ds) \<le> decpt then
        ds @ replicate (nat decpt - length ds) 48 @ u ''.0''
      else take (nat decpt) ds @ [46] @ drop (nat decpt) ds)"

definition shortest_digits :: "nat \<Rightarrow> int \<Rightarrow> nat \<times> int" where
  "shortest_digits m e =
     (let n = fst (frac_of m e); d = snd (frac_of m e);
          r = shortest (Fin m e) n d (ilog10 n d) 1
      in strip_zeros (fst r) (snd r))"

fun float_repr :: "pyfloat \<Rightarrow> ustr" where
  "float_repr (Fin m e) =
     (if m = 0 then u ''0.0''
      else format_repr (str_nat (fst (shortest_digits m e)))
             (int (length (str_nat (fst (shortest_digits m e)))) + snd (shortest_digits m e)))"
| "float_repr Inf = u ''inf''"
| "float_repr NaN = u ''nan''"

declare float_repr.simps(1) [simp del]

text \<open>\<^verbatim>\<open>f"{x:.2f}"\<close>: two digits after the point, correctly rounded, a tie to the even digit.\<close>

fun format_2f :: "pyfloat \<Rightarrow> ustr" where
  "format_2f (Fin m e) =
     (let k = round_half_even (fst (frac_of (100 * m) e)) (snd (frac_of (100 * m) e))
      in str_nat (k div 100) @ [46, 48 + k mod 100 div 10, 48 + k mod 10])"
| "format_2f Inf = u ''inf''"
| "format_2f NaN = u ''nan''"

section \<open>Reading a number out of a price text\<close>

text \<open>
  In a \<^verbatim>\<open>str\<close> pattern \<^verbatim>\<open>\d\<close> matches every Unicode decimal digit, and \<^verbatim>\<open>float\<close> reads
  each of them as its ASCII digit. The decimal digits come in runs of ten consecutive code
  points; \<open>decimal_zeros\<close> lists the zero of every run (Unicode 14, the table of CPython 3.11).
\<close>

definition decimal_zeros :: "nat list" where
  "decimal_zeros =
     [48, 1632, 1776, 1984, 2406, 2534, 2662, 2790, 2918, 3046, 3174, 3302, 3430, 3558,
      3664, 3792, 3872, 4160, 4240, 6112, 6160, 6470, 6608, 6784, 6800, 6992, 7088, 7232,
      7248, 42528, 43216, 43264, 43472, 43504, 43600, 44016, 65296, 66720, 68912, 69734,
      69872, 69942, 70096, 70384, 70736, 70864, 71248, 71360, 71472, 71904, 72016, 72784,
      73040, 73120, 92768, 92864, 93008, 120782, 120792, 120802, 120812, 120822, 123200,
      123632, 125264, 130032]"

definition decimal_value :: "nat \<Rightarrow> nat option" where
  "decimal_value c =
     (case find (\<lambda>z. z \<le> c \<and> c < z + 10) decimal_zeros of
        None \<Rightarrow> None
      | Some z \<Rightarrow> Some (c - z))"

text \<open>The character class \<^verbatim>\<open>[\d,.]\<close>.\<close>

definition numeric_char :: "nat \<Rightarrow> bool" where
  "numeric_char c = (decimal_value c \<noteq> None \<or> c = 44 \<or> c = 46)"

text \<open>\<^verbatim>\<open>re.search(r'[\d,.]+', s)\<close>: the first longest run, \<open>None\<close> when there is none.\<close>

definition re_search_numeric :: "ustr \<Rightarrow> ustr option" where
  "re_search_numeric s =
     (case dropWhile (\<lambda>c. \<not> numeric_char c) s of
        [] \<Rightarrow> None
      | c # cs \<Rightarrow> Some (takeWhile numeric_char (c # cs)))"

text \<open>\<^verbatim>\<open>amount_str.replace(',', '')\<close>.\<close>

definition remove_commas :: "ustr \<Rightarrow> ustr" where
  "remove_commas s = filter (\<lambda>c. c \<noteq> 44) s"

definition all_decimal :: "ustr \<Rightarrow> bool" where
  "all_decimal s = list_all (\<lambda>c. decimal_value c \<noteq> None) s"

definition digits_value :: "ustr \<Rightarrow> nat" where
  "digits_value s =
     foldl (\<lambda>a c. 10 * a + (case decimal_value c of None \<Rightarrow> 0 | Some v \<Rightarrow> v)) 0 s"

text \<open>
  \<^verbatim>\<open>float(s)\<close> for a text of decimal digits and points, which is all the matches of
  \<^verbatim>\<open>[\d,.]+\<close> can be once the commas are gone: digits with at most one point and at least one
  digit are read and rounded to the nearest double; anything else is a \<^verbatim>\<open>ValueError\<close>,
  the result \<open>None\<close>.
\<close>

definition float_of_str :: "ustr \<Rightarrow> pyfloat option" where
  "float_of_str s =
     (case split_first [46] s of
        None \<Rightarrow> if s \<noteq> [] \<and> all_decimal s then Some (rne (digits_value s) 1) else None
      | Some (a, b) \<Rightarrow>
          if all_decimal a \<and> all_decimal b \<and> a @ b \<noteq> []
          then Some (rne (digits_value (a @ b)) (10 ^ length b))
          else None)"

section \<open>\<^verbatim>\<open>EbayScraper.EXCHANGE_RATES\<close> and \<^verbatim>\<open>EbayScraper.convert_to_usd\<close>\<close>

text \<open>
  The dictionary in its insertion order, which is the order \<^verbatim>\<open>.items()\<close> goes through. The
  keys are the code points of the source file: the pound key is U+00C2 U+00A3, the euro key
  U+00E2 U+201A U+00AC, the yen key U+00C2 U+00A5, the won key U+00E2 U+201A U+00A9 and the
  rupee key U+00E2 U+201A U+00B9. Each rate is the double nearest to its literal.
\<close>

definition pound_key :: ustr where "pound_key = [194, 163]"
definition euro_key :: ustr where "euro_key = [226, 8218, 172]"
definition yen_key :: ustr where "yen_key = [194, 165]"
definition won_key :: ustr where "won_key = [226, 8218, 169]"
definition rupee_key :: ustr where "rupee_key = [226, 8218, 185]"

definition EXCHANGE_RATES :: "(ustr \<times> pyfloat) list" where
  "EXCHANGE_RATES =
     [(u ''NT$'', rne 32906 1000),
      (u ''HK$'', rne 78 10),
      (pound_key, rne 77 100),
      (euro_key, rne 91 100),
      (u ''C$'', rne 135 100),
      (u ''A$'', rne 15 10),
      (yen_key, rne 149 1),
      (won_key, rne 1350 1),
      (rupee_key, rne 83 1)]"

text \<open>\<^verbatim>\<open>round(amount / rate, 1)\<close>; the division raises on a zero rate.\<close>

definition round_div :: "pyfloat \<Rightarrow> pyfloat \<Rightarrow> exn + pyfloat" where
  "round_div amount rate =
     (case truediv amount rate of Inl e \<Rightarrow> Inl e | Inr q \<Rightarrow> Inr (round1 q))"

text \<open>
  The loop of \<^verbatim>\<open>convert_to_usd\<close> over the table. A \<^verbatim>\<open>ValueError\<close> of \<^verbatim>\<open>float\<close> is caught
  inside the loop body, so the loop goes on with the next symbol; so it does when the search
  finds no number. The call of \<^verbatim>\<open>st.error\<close> in the handler writes to the front end and is
  not modelled.
\<close>

fun convert_loop :: "(ustr \<times> pyfloat) list \<Rightarrow> ustr \<Rightarrow> exn + ustr" where
  "convert_loop [] price_str = Inr price_str"
| "convert_loop ((currency_symbol, rate) # rest) price_str =
     (if contains currency_symbol price_str then
        (case re_search_numeric price_str of
           None \<Rightarrow> convert_loop rest price_str
         | Some amount_str \<Rightarrow>
             (case float_of_str (remove_commas amount_str) of
                None \<Rightarrow> convert_loop rest price_str
              | Some amount \<Rightarrow>
                  (case (if currency_symbol = pound_key \<or> currency_symbol = euro_key
                         then round_div amount rate
                         else round_div amount rate) of
                     Inl e \<Rightarrow> Inl e
                   | Inr usd_amount \<Rightarrow> Inr (u ''US $'' @ float_repr usd_amount))))
      else convert_loop rest price_str)"

definition convert_to_usd :: "ustr \<Rightarrow> exn + ustr" where
  "convert_to_usd price_str = convert_loop EXCHANGE_RATES price_str"

text \<open>
  The same conversion with one division for every symbol, without the test for the pound
  and the euro: the version claim C10 compares \<open>convert_to_usd\<close> with.
\<close>

fun convert_uniform_loop :: "(ustr \<times> pyfloat) list \<Rightarrow> ustr \<Rightarrow> exn + ustr" where
  "convert_uniform_loop [] price_str = Inr price_str"
| "convert_uniform_loop ((currency_symbol, rate) # rest) price_str =
     (if contains currency_symbol price_str then
        (case re_search_numeric price_str of
           None \<Rightarrow> convert_uniform_loop rest price_str
         | Some amount_str \<Rightarrow>
             (case float_of_str (remove_commas amount_str) of
                None \<Rightarrow> convert_uniform_loop rest price_str
              | Some amount \<Rightarrow>
                  (case round_div amount rate of
                     Inl e \<Rightarrow> Inl e
                   | Inr usd_amount \<Rightarrow> Inr (u ''US $'' @ float_repr usd_amount))))
      else convert_uniform_loop rest price_str)"

definition convert_to_usd_uniform :: "ustr \<Rightarrow> exn + ustr" where
  "convert_to_usd_uniform price_str = convert_uniform_loop EXCHANGE_RATES price_str"

text \<open>The characters \<^verbatim>\<open>repr\<close> of a float is written with.\<close>

definition repr_chars :: "nat set" where
  "repr_chars = {48..57} \<union> {46, 101, 43, 45, 105, 110, 102, 97}"

text \<open>
  Rounding to one decimal with a tie going up, which is what "half-up" means in claim C2.
  It is not in the source and is defined only to be compared with \<open>round1\<close>.
\<close>

definition round_half_up :: "nat \<Rightarrow> nat \<Rightarrow> nat" where
  "round_half_up n d = (2 * n + d) div (2 * d)"

fun round1_half_up :: "pyfloat \<Rightarrow> pyfloat" where
  "round1_half_up (Fin m e) =
     rne (round_half_up (fst (frac_of (10 * m) e)) (snd (frac_of (10 * m) e))) 10"
| "round1_half_up Inf = Inf"
| "round1_half_up NaN = NaN"

text \<open>
  \<open>nearest_tie_even m e n\<close>: \<open>n\<close> is an integer nearest to \<open>m * 2 ^ e\<close>, and the even one
  when \<open>m * 2 ^ e\<close> lies half way between two integers.
\<close>

definition nearest_tie_even :: "nat \<Rightarrow> int \<Rightarrow> nat \<Rightarrow> bool" where
  "nearest_tie_even m e n =
     (let a = fst (frac_of m e); b = snd (frac_of m e)
      in 2 * n * b \<le> 2 * a + b \<and> 2 * a \<le> 2 * n * b + b \<and>
         ((2 * a = 2 * n * b + b \<or> 2 * a + b = 2 * n * b) \<longrightarrow> even n))"

section \<open>More string methods\<close>

text \<open>\<^verbatim>\<open>s.strip()\<close>: the characters Python counts as white space are removed at both ends.\<close>

definition is_space :: "nat \<Rightarrow> bool" where
  "is_space c =
     (c \<in> {9..13} \<union> {28..32} \<union> {133, 160, 5760} \<union> {8192..8202} \<union>
           {8232, 8233, 8239, 8287, 12288})"

definition strip :: "ustr \<Rightarrow> ustr" where
  "strip s = rev (dropWhile is_space (rev (dropWhile is_space s)))"

text \<open>\<^verbatim>\<open>s.split(sep)[0]\<close>: the text before the first \<open>sep\<close>, all of \<open>s\<close> when there is none.\<close>

definition before :: "'a list \<Rightarrow> 'a list \<Rightarrow> 'a list" where
  "before sep s = (case split_first sep s of None \<Rightarrow> s | Some (a, b) \<Rightarrow> a)"

text \<open>
  \<^verbatim>\<open>s.replace(old, new)\<close> for a non-empty \<open>old\<close>, as in every call of the source: the
  occurrences are replaced from left to right, without overlap.
\<close>

function replace :: "'a list \<Rightarrow> 'a list \<Rightarrow> 'a list \<Rightarrow> 'a list" where
  "replace old new [] = []"
| "replace old new (c # cs) =
     (if old \<noteq> [] \<and> prefix old (c # cs)
      then new @ replace old new (drop (length old) (c # cs))
      else c # replace old new cs)"
  by pat_completeness auto
termination
  by (relation "measure (\<lambda>(old, new, s). length s)") auto

section \<open>\<^verbatim>\<open>EbayScraper.add_status_update\<close>\<close>

text \<open>
  The time of day is not computed by the program: \<open>clock k\<close> is what
  \<^verbatim>\<open>datetime.now().strftime("%H:%M:%S")\<close> returns when entry number \<open>k\<close> of the log is written.
\<close>

definition stamped :: "ustr \<Rightarrow> ustr \<Rightarrow> ustr" where
  "stamped timestamp message = u ''['' @ timestamp @ u ''] '' @ message"

definition add_status_update :: "(nat \<Rightarrow> ustr) \<Rightarrow> ustr \<Rightarrow> scraper \<Rightarrow> scraper" where
  "add_status_update clock message s =
     s\<lparr>status_updates :=
         status_updates s @ [stamped (clock (length (status_updates s))) message]\<rparr>"

section \<open>\<^verbatim>\<open>EbayScraper.parse_product_listings\<close>\<close>

text \<open>Lines 148-151: the stripped text, cut at a range and at a unit.\<close>

definition clean_price :: "ustr \<Rightarrow> ustr" where
  "clean_price text =
     (let price_text = strip text;
          price_text = (if contains (u '' to '') price_text
                        then before (u '' to '') price_text else price_text);
          price_text = (if contains (u ''/'') price_text
                        then before (u ''/'') price_text else price_text)
      in price_text)"

text \<open>Lines 154-157: the spellings of the Taiwan dollar.\<close>

definition normalize_nt :: "ustr \<Rightarrow> ustr" where
  "normalize_nt price_text =
     (if \<not> contains (u ''NT$'') price_text \<and>
         (contains (u ''NT $'') price_text \<or> contains (u ''nt$'') price_text \<or>
          contains (u ''NT'') price_text)
      then
        (let price_text =
               replace (u ''nt$'') (u ''NT$'') (replace (u ''NT $'') (u ''NT$'') price_text)
         in if contains (u ''NT'') price_text \<and> contains (u ''$'') price_text \<and>
               \<not> contains (u ''NT$'') price_text
            then replace (u ''NT$$'') (u ''NT$'') (replace (u ''NT'') (u ''NT$'') price_text)
            else price_text)
      else price_text)"

text \<open>
  Lines 160-182: the price in dollars and, for a converted price, the message for the log.
  \<open>price_text\<close> is the variable \<^verbatim>\<open>price\<close> of the source.
  The arrow of the message is written in the source file with the code points U+00E2
  U+2020 U+2019.
\<close>

definition has_currency :: "ustr \<Rightarrow> bool" where
  "has_currency price_text =
     list_ex (\<lambda>currency. contains currency price_text) (map fst EXCHANGE_RATES)"

definition currency_to_usd :: "ustr \<Rightarrow> exn + (ustr \<times> ustr option)" where
  "currency_to_usd price_text =
     (if contains (u ''US $'') price_text \<or> startswith price_text (u ''$'') then
        (case re_search_numeric price_text of
           None \<Rightarrow> Inr (price_text, None)
         | Some price_value \<Rightarrow>
             (case float_of_str (remove_commas price_value) of
                None \<Rightarrow> Inr (u ''US $'' @ price_value, None)
              | Some price_float \<Rightarrow> Inr (u ''US $'' @ float_repr (round1 price_float), None)))
      else if has_currency price_text then
        (case convert_to_usd price_text of
           Inl e \<Rightarrow> Inl e
         | Inr converted \<Rightarrow>
             Inr (converted,
                  Some (u ''Converted currency: '' @ price_text @ [32, 226, 8224, 8217, 32] @
                        converted)))
      else if contains (u ''$'') price_text \<and> \<not> contains (u ''US $'') price_text then
        Inr (u ''US '' @ price_text, None)
      else Inr (price_text, None))"

text \<open>Lines 146-182 together, from the price element.\<close>

definition extract_price :: "ustr option \<Rightarrow> exn + (ustr \<times> ustr option)" where
  "extract_price elem =
     (case elem of
        None \<Rightarrow> Inr (u ''No Price'', None)
      | Some text \<Rightarrow> currency_to_usd (normalize_nt (clean_price text)))"

text \<open>\<^verbatim>\<open>if not image_url\<close>: no value, or the empty string.\<close>

fun falsy :: "ustr option \<Rightarrow> bool" where
  "falsy None = True"
| "falsy (Some v) = (v = [])"

text \<open>Lines 187-210: the image, by the three ways of the source in their order.\<close>

definition image_from_elem :: "attrs option \<Rightarrow> ustr option" where
  "image_from_elem elem =
     (case elem of
        None \<Rightarrow> None
      | Some a \<Rightarrow>
          (case a (u ''data-src'') of
             Some v \<Rightarrow> Some v
           | None \<Rightarrow>
               (case a (u ''src'') of
                  None \<Rightarrow> None
                | Some v \<Rightarrow> if \<not> endswith v (u ''gif'') then Some v else None)))"

definition image_from_picture :: "attrs option option \<Rightarrow> ustr option \<Rightarrow> ustr option" where
  "image_from_picture picture img_url =
     (case picture of
        None \<Rightarrow> img_url
      | Some None \<Rightarrow> img_url
      | Some (Some a) \<Rightarrow> (case a (u ''src'') of None \<Rightarrow> img_url | Some v \<Rightarrow> Some v))"

fun image_from_imgs :: "attrs list \<Rightarrow> ustr option \<Rightarrow> ustr option" where
  "image_from_imgs [] img_url = img_url"
| "image_from_imgs (img # imgs) img_url =
     (case img (u ''src'') of
        None \<Rightarrow> image_from_imgs imgs img_url
      | Some v \<Rightarrow>
          if \<not> endswith v (u ''gif'') \<and> contains (u ''https://'') v then Some v
          else image_from_imgs imgs img_url)"

definition extract_image :: "container \<Rightarrow> ustr option" where
  "extract_image c =
     (let img_url = image_from_elem (image_elem c);
          img_url = (if falsy img_url then image_from_picture (picture_elem c) img_url
                     else img_url);
          img_url = (if falsy img_url then image_from_imgs (all_imgs c) img_url else img_url)
      in img_url)"

text \<open>Line 139: the placeholder item.\<close>

definition shop_on_ebay :: "container \<Rightarrow> bool" where
  "shop_on_ebay c =
     (case title_elem c of None \<Rightarrow> False | Some text \<Rightarrow> contains (u ''Shop on eBay'') text)"

definition extract_title :: "container \<Rightarrow> ustr" where
  "extract_title c = (case title_elem c of None \<Rightarrow> u ''No Title'' | Some text \<Rightarrow> strip text)"

definition extract_url :: "container \<Rightarrow> ustr option" where
  "extract_url c = (case link_elem c of None \<Rightarrow> None | Some a \<Rightarrow> a (u ''href''))"

text \<open>\<^verbatim>\<open>str(e)\<close> of the exception, for the message of the handler in line 221.\<close>

fun exn_str :: "exn \<Rightarrow> ustr" where
  "exn_str ZeroDivisionError = u ''float division by zero''"

text \<open>
  The loop over the containers. An item is skipped by \<^verbatim>\<open>continue\<close> when it is the placeholder;
  an exception inside the body is caught, logged, and the item is skipped; an item is
  appended only when its URL is truthy.
\<close>

fun parse_containers ::
  "(nat \<Rightarrow> ustr) \<Rightarrow> container list \<Rightarrow> scraper \<Rightarrow> product list \<times> scraper" where
  "parse_containers clock [] s = ([], s)"
| "parse_containers clock (c # cs) s =
     (if shop_on_ebay c then parse_containers clock cs s
      else
        (case extract_price (price_elem c) of
           Inl e \<Rightarrow>
             parse_containers clock cs
               (add_status_update clock (u ''Error extracting product data: '' @ exn_str e) s)
         | Inr (item_price, message) \<Rightarrow>
             (let s' = (case message of None \<Rightarrow> s | Some m \<Rightarrow> add_status_update clock m s);
                  rest = parse_containers clock cs s'
              in if falsy (extract_url c) then rest
                 else (\<lparr>title = extract_title c, price = item_price,
                         product_url = (case extract_url c of None \<Rightarrow> [] | Some v \<Rightarrow> v),
                         image_url = extract_image c\<rparr> # fst rest, snd rest))))"

definition parse_product_listings ::
  "(nat \<Rightarrow> ustr) \<Rightarrow> html option \<Rightarrow> scraper \<Rightarrow> product list \<times> scraper" where
  "parse_product_listings clock html_content s =
     (case html_content of
        Some (Doc soup) \<Rightarrow> parse_containers clock (s_items soup) s
      | _ \<Rightarrow> ([], s))"

text \<open>The price an item gets, when the conversion does not raise.\<close>

definition price_of :: "container \<Rightarrow> ustr" where
  "price_of c = (case extract_price (price_elem c) of Inl e \<Rightarrow> [] | Inr (p, m) \<Rightarrow> p)"

definition url_of :: "container \<Rightarrow> ustr" where
  "url_of c = (case extract_url c of None \<Rightarrow> [] | Some v \<Rightarrow> v)"

section \<open>The world outside the program\<close>

text \<open>
  What the program asks of its surroundings is answered by an \<open>env\<close>: the clock of the log,
  the outcome of attempt \<open>a\<close> at fetching page number \<open>k\<close> (\<^verbatim>\<open>session.get\<close> followed by
  \<^verbatim>\<open>raise_for_status\<close>), the draws of \<^verbatim>\<open>random.uniform\<close>, whether a stop has been requested
  from outside by the time the loop tests \<^verbatim>\<open>is_running\<close> for page \<open>k\<close>, and
  \<^verbatim>\<open>urllib.parse.urljoin\<close>.
\<close>

datatype response = Ok html | RequestException ustr

record env =
  time_at :: "nat \<Rightarrow> ustr"
  http_get :: "int \<Rightarrow> nat \<Rightarrow> ustr \<Rightarrow> response"
  jitter :: "int \<Rightarrow> nat \<Rightarrow> pyfloat"
  delay :: "int \<Rightarrow> pyfloat"
  stop_requested :: "int \<Rightarrow> bool"
  resolve :: "ustr \<Rightarrow> ustr \<Rightarrow> ustr"

section \<open>\<^verbatim>\<open>EbayScraper.get_page\<close>\<close>

definition max_retries :: nat where
  "max_retries = 3"

definition error_msg :: "ustr \<Rightarrow> ustr \<Rightarrow> ustr" where
  "error_msg url e = u ''Error fetching '' @ url @ u '': '' @ e"

definition retry_msg :: "pyfloat \<Rightarrow> ustr" where
  "retry_msg wait_time = u ''Retrying in '' @ format_2f wait_time @ u '' seconds...''"

text \<open>
  The loop \<^verbatim>\<open>for attempt in range(max_retries)\<close> over the attempts still to make. A page
  is returned at the first success; every failure is logged; the last failure returns
  \<open>None\<close>. \<^verbatim>\<open>time.sleep\<close> changes nothing the model keeps.
\<close>

fun get_page_loop ::
  "env \<Rightarrow> int \<Rightarrow> ustr \<Rightarrow> nat list \<Rightarrow> scraper \<Rightarrow> html option \<times> scraper" where
  "get_page_loop env k url [] s = (None, s)"
| "get_page_loop env k url (attempt # attempts) s =
     (case http_get env k attempt url of
        Ok page \<Rightarrow> (Some page, s)
      | RequestException e \<Rightarrow>
          (let s1 = add_status_update (time_at env) (error_msg url e) s
           in if attempt < max_retries - 1 then
                (let wait_time = fadd (rne (2 ^ attempt) 1) (jitter env k attempt);
                     s2 = add_status_update (time_at env) (retry_msg wait_time) s1
                 in get_page_loop env k url attempts s2)
              else
                (None,
                 add_status_update (time_at env) (u ''Max retries reached. Moving on.'') s1)))"

definition get_page :: "env \<Rightarrow> int \<Rightarrow> ustr \<Rightarrow> scraper \<Rightarrow> html option \<times> scraper" where
  "get_page env k url s = get_page_loop env k url [0..<max_retries] s"

section \<open>\<^verbatim>\<open>EbayScraper.scrape\<close>\<close>

text \<open>
  \<^verbatim>\<open>max_pages\<close> is \<open>None\<close> or a number; zero counts as no limit, as \<^verbatim>\<open>if max_pages\<close> does.
  The progress bar and the status area are widgets of the front end and are left out.
\<close>

fun limited :: "int option \<Rightarrow> bool" where
  "limited None = False"
| "limited (Some m) = (m \<noteq> 0)"

fun the_limit :: "int option \<Rightarrow> int" where
  "the_limit None = 0"
| "the_limit (Some m) = m"

definition log :: "env \<Rightarrow> ustr \<Rightarrow> scraper \<Rightarrow> scraper" where
  "log env message s = add_status_update (time_at env) message s"

definition found_msg :: "nat \<Rightarrow> int \<Rightarrow> nat \<Rightarrow> ustr" where
  "found_msg n page_number collected =
     u ''Found '' @ str_nat n @ u '' products on page '' @ str_int page_number @
     u ''. Total: '' @ str_nat collected"

definition no_products_msg :: "int \<Rightarrow> ustr" where
  "no_products_msg page_number =
     u ''No products found on page '' @ str_int page_number @ u ''. Stopping.''"

definition waiting_msg :: "pyfloat \<Rightarrow> ustr" where
  "waiting_msg d = u ''Waiting '' @ format_2f d @ u '' seconds before next request...''"

definition reached_msg :: "int \<Rightarrow> ustr" where
  "reached_msg m = u ''Reached maximum number of pages ('' @ str_int m @ u ''). Stopping.''"

definition complete_msg :: "nat \<Rightarrow> ustr" where
  "complete_msg collected =
     u ''Scraping complete. Total products collected: '' @ str_nat collected"

text \<open>
  One pass through the body of the \<^verbatim>\<open>while\<close> loop, lines 278-321: \<open>Inl\<close> is a \<^verbatim>\<open>break\<close> with the
  state it leaves, \<open>Inr\<close> the next URL and page number.
\<close>

definition scrape_body ::
  "env \<Rightarrow> int option \<Rightarrow> ustr \<Rightarrow> int \<Rightarrow> scraper \<Rightarrow>
   scraper + (ustr option \<times> int \<times> scraper)" where
  "scrape_body env max_pages current_url page_number s =
     (let s1 = log env (u ''Scraping page '' @ str_int page_number @ u ''...'') s;
          fetched = get_page env page_number current_url s1;
          html_content = fst fetched;
          s2 = snd fetched
      in if truthy html_content then
           (let parsed = parse_product_listings (time_at env) html_content s2;
                page_products = fst parsed;
                s3 = snd parsed
            in if page_products \<noteq> [] then
                 (let s4 = s3\<lparr>products := products s3 @ page_products\<rparr>;
                      s5 = log env (found_msg (length page_products) page_number
                                      (length (products s4))) s4;
                      s6 = log env (waiting_msg (delay env page_number)) s5
                  in if limited max_pages \<and> the_limit max_pages \<le> page_number
                     then Inl (log env (reached_msg (the_limit max_pages)) s6)
                     else Inr (get_next_page_url (resolve env) (base_url s6) html_content
                                 page_number,
                               page_number + 1, s6))
               else Inl (log env (no_products_msg page_number) s3))
         else Inl (log env (u ''Failed to fetch page content. Stopping.'') s2))"

text \<open>
  The \<^verbatim>\<open>while\<close> loop. A stop requested from outside has cleared \<^verbatim>\<open>is_running\<close> by the time
  the loop tests it. The loop need not end: with no page limit it runs for as long as pages
  with items and a next URL keep coming, and then the result is \<open>None\<close>.
\<close>

partial_function (option) scrape_loop ::
  "env \<Rightarrow> int option \<Rightarrow> ustr option \<Rightarrow> int \<Rightarrow> scraper \<Rightarrow> scraper option" where
  "scrape_loop env max_pages current_url page_number s =
     (let s0 = s\<lparr>is_running := is_running s \<and> \<not> stop_requested env page_number\<rparr>
      in if \<not> falsy current_url \<and> is_running s0 then
           (case scrape_body env max_pages (case current_url of None \<Rightarrow> [] | Some v \<Rightarrow> v)
                   page_number s0 of
              Inl s' \<Rightarrow> Some s'
            | Inr (next_url, next_page, s') \<Rightarrow>
                scrape_loop env max_pages next_url next_page s')
         else Some s0)"

text \<open>
  What follows the loop, lines 323-337 and the \<^verbatim>\<open>finally\<close> clause: the products returned and
  the state left.
\<close>

definition scrape_end :: "env \<Rightarrow> scraper \<Rightarrow> product list \<times> scraper" where
  "scrape_end env s =
     (let s1 = log env (complete_msg (length (products s))) s;
          s2 = (if \<not> is_running s1 then log env (u ''Scrape was stopped manually.'') s1 else s1)
      in (products s2, s2\<lparr>is_running := False\<rparr>))"

definition scrape :: "env \<Rightarrow> int option \<Rightarrow> scraper \<Rightarrow> (product list \<times> scraper) option" where
  "scrape env max_pages s =
     (let s0 = s\<lparr>is_running := True, progress := 0, products := [], status_updates := []\<rparr>;
          s1 = log env (u ''Starting scrape for: '' @ base_url s0) s0;
          s2 = log env (u ''Maximum pages to scrape: '' @
                        (case max_pages of
                           None \<Rightarrow> u ''All''
                         | Some m \<Rightarrow> if m \<noteq> 0 then str_int m else u ''All'')) s1
      in (case scrape_loop env max_pages (Some (base_url s2)) 1 s2 of
            None \<Rightarrow> None
          | Some s3 \<Rightarrow> Some (scrape_end env s3)))"

section \<open>Example data\<close>

text \<open>A clock that always shows midnight, and a scraper as the constructor leaves it.\<close>

definition midnight :: "nat \<Rightarrow> ustr" where
  "midnight k = u ''00:00:00''"

definition phone_search :: scraper where
  "phone_search = init (u ''https://www.ebay.com/sch/i.html?_nkw=phone'')"

text \<open>
  Four items: a listing with a price range, the placeholder item with a link, a listing
  without a link, and a listing that has nothing but a link.
\<close>

definition range_item :: container where
  "range_item =
     \<lparr>title_elem = Some (u ''Phone case''), price_elem = Some (u ''$10 to $20''),
      link_elem = Some [u ''href'' \<mapsto> u ''https://www.ebay.com/itm/1''],
      image_elem = None, picture_elem = None, all_imgs = []\<rparr>"

definition shop_item :: container where
  "shop_item =
     \<lparr>title_elem = Some (u ''Shop on eBay''), price_elem = Some (u ''$20.00''),
      link_elem = Some [u ''href'' \<mapsto> u ''https://www.ebay.com/itm/123''],
      image_elem = None, picture_elem = None, all_imgs = []\<rparr>"

definition unlinked_item :: container where
  "unlinked_item =
     \<lparr>title_elem = Some (u ''Phone''), price_elem = None,
      link_elem = None, image_elem = None, picture_elem = None, all_imgs = []\<rparr>"

definition bare_item :: container where
  "bare_item =
     \<lparr>title_elem = None, price_elem = None,
      link_elem = Some [u ''href'' \<mapsto> u ''https://www.ebay.com/itm/2''],
      image_elem = None, picture_elem = None, all_imgs = []\<rparr>"

text \<open>A page with the placeholder item alone, and a page with the last three items.\<close>

definition shop_page :: dom where
  "shop_page = \<lparr>s_items = [shop_item], pagination_items = False, pagination_next = None\<rparr>"

definition three_items :: dom where
  "three_items =
     \<lparr>s_items = [shop_item, unlinked_item, bare_item], pagination_items = False,
      pagination_next = None\<rparr>"

text \<open>
  A network on which every request times out, and one that serves the page with the
  placeholder item alone; the draw of the jitter is 0.5 and the delay 2.0.
\<close>

definition offline :: env where
  "offline =
     \<lparr>time_at = midnight,
      http_get = (\<lambda>k attempt url. RequestException (u ''timed out'')),
      jitter = (\<lambda>k attempt. Fin 4503599627370496 (- 53)),
      delay = (\<lambda>k. Fin 4503599627370496 (- 51)),
      stop_requested = (\<lambda>k. False),
      resolve = unresolved\<rparr>"

definition end_of_results :: env where
  "end_of_results =
     \<lparr>time_at = midnight,
      http_get = (\<lambda>k attempt url. Ok (Doc shop_page)),
      jitter = (\<lambda>k attempt. Fin 4503599627370496 (- 53)),
      delay = (\<lambda>k. Fin 4503599627370496 (- 51)),
      stop_requested = (\<lambda>k. False),
      resolve = unresolved\<rparr>"

text \<open>A network that answers every request with success and an empty body.\<close>

definition empty_body :: env where
  "empty_body =
     \<lparr>time_at = midnight,
      http_get = (\<lambda>k attempt url. Ok Blank),
      jitter = (\<lambda>k attempt. Fin 4503599627370496 (- 53)),
      delay = (\<lambda>k. Fin 4503599627370496 (- 51)),
      stop_requested = (\<lambda>k. False),
      resolve = unresolved\<rparr>"

text \<open>A scraper in the middle of a run, with one product collected on an earlier page.\<close>

definition mid_run :: scraper where
  "mid_run =
     phone_search
       \<lparr>products := [\<lparr>title = u ''Phone'', price = u ''US $99.0'',
                       product_url = u ''https://www.ebay.com/itm/7'', image_url = None\<rparr>],
        status_updates := [],
        is_running := True\<rparr>"

section \<open>Facts about the string functions\<close>

lemma contains_sublist: "contains sub s = sublist sub s"
  by (induction s) (auto simp: sublist_Cons_right)

lemma contains_set: "contains sub s \<Longrightarrow> set sub \<subseteq> set s"
  by (auto simp: contains_sublist sublist_def)

lemma split_first_single: "c \<notin> set a \<Longrightarrow> split_first [c] (a @ c # b) = Some (a, b)"
  by (induction a) auto

lemma split_first_None: "split_first sep s = None \<longleftrightarrow> \<not> contains sep s"
  by (induction s) (auto split: option.splits)

lemma split_first_Some: "split_first sep s = Some (a, b) \<Longrightarrow> s = a @ sep @ b"
  by (induction s arbitrary: a) (auto split: option.splits if_splits simp: prefix_def)

lemma split_on_not_Nil: "split_on c s \<noteq> []"
  by (induction s) (auto split: list.splits)

lemma split_on_append: "c \<notin> set p \<Longrightarrow> split_on c (p @ c # r) = p # split_on c r"
  by (induction p) auto

lemma split_on_no_sep: "c \<notin> set p \<Longrightarrow> split_on c p = [p]"
  by (induction p) auto

lemma split_on_join:
  "ps \<noteq> [] \<Longrightarrow> \<forall>p \<in> set ps. c \<notin> set p \<Longrightarrow> split_on c (join [c] ps) = ps"
  by (induction "[c]" ps rule: join.induct) (auto simp: split_on_no_sep split_on_append)

lemma join_contains: "p \<in> set ps \<Longrightarrow> sublist p (join sep ps)"
proof (induction sep ps rule: join.induct)
  case (3 sep a b ps)
  show ?case
  proof (cases "p = a")
    case True
    then show ?thesis by simp
  next
    case False
    with 3 have "sublist p (join sep (b # ps))" by simp
    then have "sublist p ((a @ sep) @ join sep (b # ps))"
      unfolding sublist_append by blast
    then show ?thesis by simp
  qed
qed auto

lemma prefix_takeWhile: "prefix sub s \<Longrightarrow> c \<notin> set sub \<Longrightarrow> prefix sub (takeWhile (\<lambda>x. x \<noteq> c) s)"
proof -
  assume "prefix sub s" and c: "c \<notin> set sub"
  then obtain zs where "s = sub @ zs" by (auto simp: prefix_def)
  moreover have "takeWhile (\<lambda>x. x \<noteq> c) (sub @ zs) = sub @ takeWhile (\<lambda>x. x \<noteq> c) zs"
    using c by (intro takeWhile_append2) auto
  ultimately show ?thesis by simp
qed

lemma hd_split_on: "hd (split_on c s) = takeWhile (\<lambda>x. x \<noteq> c) s"
  by (induction s) (auto split: list.splits simp: split_on_not_Nil)

lemma split_on_contains:
  "sublist sub s \<Longrightarrow> c \<notin> set sub \<Longrightarrow> \<exists>p \<in> set (split_on c s). sublist sub p"
proof (induction s)
  case Nil
  then show ?case by simp
next
  case (Cons x xs)
  from Cons.prems(1) consider "prefix sub (x # xs)" | "sublist sub xs"
    by (auto simp: sublist_Cons_right)
  then show ?case
  proof cases
    case 1
    then have "prefix sub (takeWhile (\<lambda>x. x \<noteq> c) (x # xs))"
      using Cons.prems(2) by (rule prefix_takeWhile)
    then have "prefix sub (hd (split_on c (x # xs)))"
      by (simp only: hd_split_on)
    moreover have "hd (split_on c (x # xs)) \<in> set (split_on c (x # xs))"
      using split_on_not_Nil by (metis hd_in_set)
    ultimately show ?thesis by (meson prefix_imp_sublist)
  next
    case 2
    with Cons obtain p where p: "p \<in> set (split_on c xs)" "sublist sub p" by blast
    show ?thesis
    proof (cases "x = c")
      case True
      with p show ?thesis by auto
    next
      case False
      obtain p0 ps where s: "split_on c xs = p0 # ps"
        using split_on_not_Nil[of c xs] by (cases "split_on c xs") auto
      show ?thesis
      proof (cases "p = p0")
        case True
        with p have "sublist sub (x # p0)" by (simp add: sublist_Cons_right)
        with False s show ?thesis by auto
      next
        case False
        with p s have "p \<in> set ps" by auto
        with \<open>x \<noteq> c\<close> s p show ?thesis by auto
      qed
    qed
  qed
qed

lemma sublist_trans: "sublist x y \<Longrightarrow> sublist y z \<Longrightarrow> sublist x z"
  by (rule sublist_order.order_trans)

section \<open>Facts about \<^verbatim>\<open>get_next_page_url\<close>\<close>

lemma sublist_in_suffix: "sublist x y \<Longrightarrow> sublist x (p @ y)"
  by (simp add: sublist_append)

lemma contains_init: "contains (u ''?'') (base_url (init url))"
proof -
  have "sublist [63::nat] (url @ u ''&_ccy=1&_fmt=US&_dmd=1'')" if "sublist [63] url"
    using that sublist_append by blast
  moreover have "sublist (u ''?'') (url @ u ''?'' @ u ''_ccy=1&_fmt=US&_dmd=1'')"
    by (rule sublist_appendI)
  ultimately show ?thesis
    by (simp add: init_def contains_sublist)
qed

lemma fallback_query:
  assumes "next_button_href soup = None" and "split_first (u ''?'') base = Some (a, b)"
    and "contains (u ''_pgn='') b"
  shows "get_next_page_url urljoin base (Some (Doc soup)) n =
         Some (a @ u ''?'' @ join (u ''&'') (map (set_pgn n) (split_on 38 b)))"
  using assms by (simp add: get_next_page_url_def)

lemma fallback_append:
  assumes "next_button_href soup = None" and "split_first (u ''?'') base = Some (a, b)"
    and "\<not> contains (u ''_pgn='') b"
  shows "get_next_page_url urljoin base (Some (Doc soup)) n =
         Some (base @ u ''&_pgn='' @ str_int (n + 1))"
  using assms by (simp add: get_next_page_url_def)

lemma set_pgn_in_query:
  assumes "contains (u ''_pgn='') b"
  shows "sublist (u ''_pgn='' @ str_int (n + 1)) (join (u ''&'') (map (set_pgn n) (split_on 38 b)))"
proof -
  have "38 \<notin> set (u ''_pgn='')" by simp
  with assms obtain p where p: "p \<in> set (split_on 38 b)" "sublist (u ''_pgn='') p"
    using split_on_contains[of "u ''_pgn=''" b 38] by (auto simp: contains_sublist)
  then have "set_pgn n p = u ''_pgn='' @ str_int (n + 1)"
    by (simp add: set_pgn_def contains_sublist)
  with p(1) have "u ''_pgn='' @ str_int (n + 1) \<in> set (map (set_pgn n) (split_on 38 b))"
    by force
  then show ?thesis by (rule join_contains)
qed

section \<open>Evaluating the float model\<close>

lemmas rne_ev = rne_def ilog2_def bitlen.simps round_half_even_def Let_def

lemmas decimal_ev = decimal_value_def decimal_zeros_def

lemma rates:
  "EXCHANGE_RATES =
     [(u ''NT$'', Fin 4631107791820423 (- 47)),
      (u ''HK$'', Fin 8782019273372467 (- 50)),
      (pound_key, Fin 6935543426150564 (- 53)),
      (euro_key, Fin 8196551321814303 (- 53)),
      (u ''C$'', Fin 6079859496950170 (- 52)),
      (u ''A$'', Fin 6755399441055744 (- 52)),
      (yen_key, Fin 5242471441235968 (- 45)),
      (won_key, Fin 5937362789990400 (- 42)),
      (rupee_key, Fin 5840605766746112 (- 46))]"
  by (simp add: EXCHANGE_RATES_def rne_ev)

section \<open>The characters of a float\<close>

lemma set_str_nat: "set (str_nat n) \<subseteq> {48..57}"
proof (induction n rule: str_nat.induct)
  case (1 n)
  show ?case
  proof (cases "n < 10")
    case True
    then show ?thesis by (subst str_nat.simps) auto
  next
    case False
    have "n mod 10 < 10" by simp
    then have "48 + n mod 10 \<in> {48..57}" by auto
    with False 1 show ?thesis by (subst str_nat.simps) auto
  qed
qed

lemma set_exponent_str: "set (exponent_str x) \<subseteq> repr_chars"
  using set_str_nat[of "nat \<bar>x\<bar>"] by (auto simp: exponent_str_def repr_chars_def)

lemma set_format_repr: "set ds \<subseteq> {48..57} \<Longrightarrow> set (format_repr ds decpt) \<subseteq> repr_chars"
proof -
  assume ds: "set ds \<subseteq> {48..57}"
  have t: "set (take k ds) \<subseteq> repr_chars" for k
    using ds set_take_subset[of k ds] by (auto simp: repr_chars_def)
  have d: "set (drop k ds) \<subseteq> repr_chars" for k
    using ds set_drop_subset[of k ds] by (auto simp: repr_chars_def)
  have s: "set ds \<subseteq> repr_chars" using ds by (auto simp: repr_chars_def)
  have c: "46 \<in> repr_chars" "101 \<in> repr_chars" "48 \<in> repr_chars"
    by (simp_all add: repr_chars_def)
  show ?thesis
    using t d s c set_exponent_str[of "decpt - 1"]
    by (auto simp: format_repr_def dest: subsetD)
qed

lemma set_float_repr: "set (float_repr x) \<subseteq> repr_chars"
proof (cases x)
  case (Fin m e)
  then show ?thesis
    using set_format_repr[OF set_str_nat] by (auto simp: repr_chars_def float_repr.simps)
next
  case Inf
  then show ?thesis by (simp add: repr_chars_def)
next
  case NaN
  then show ?thesis by (simp add: repr_chars_def)
qed

section \<open>Facts about \<^verbatim>\<open>convert_to_usd\<close>\<close>

lemma symbol_not_in_output:
  assumes "(k, r) \<in> set EXCHANGE_RATES"
  shows "\<not> contains k (u ''US $'' @ float_repr x)"
proof
  assume "contains k (u ''US $'' @ float_repr x)"
  then have "set k \<subseteq> set (u ''US $'' @ float_repr x)" by (rule contains_set)
  then have sub: "set k \<subseteq> {85, 83, 32, 36} \<union> repr_chars"
    using set_float_repr[of x] by auto
  from assms have "hd k \<in> set k \<and> hd k \<in> {78, 72, 194, 226, 67, 65}"
    by (auto simp: rates pound_key_def euro_key_def yen_key_def won_key_def rupee_key_def)
  with sub show False by (auto simp: repr_chars_def)
qed

lemma convert_loop_no_symbol:
  "\<forall>(k, r) \<in> set t. \<not> contains k s \<Longrightarrow> convert_loop t s = Inr s"
  by (induction t s rule: convert_loop.induct) auto

lemma round_div_nonzero: "m \<noteq> 0 \<Longrightarrow> round_div a (Fin m e) \<noteq> Inl x"
  by (cases a) (auto simp: round_div_def)

lemma convert_loop_result:
  assumes "\<forall>(k, r) \<in> set t. \<exists>m e. r = Fin m e \<and> m \<noteq> 0"
  shows "convert_loop t s = Inr s \<or> (\<exists>x. convert_loop t s = Inr (u ''US $'' @ float_repr x))"
  using assms
  by (induction t s rule: convert_loop.induct)
     (auto split: option.splits sum.splits simp: round_div_nonzero)

lemma rates_nonzero: "\<forall>(k, r) \<in> set EXCHANGE_RATES. \<exists>m e. r = Fin m e \<and> m \<noteq> 0"
  by (simp add: rates)

lemma convert_loop_first_match:
  assumes "find (\<lambda>(k, r). contains k s) t = Some (k, r)"
    and "re_search_numeric s = Some a"
    and "float_of_str (remove_commas a) = Some amount"
  shows "convert_loop t s =
         (case round_div amount r of Inl e \<Rightarrow> Inl e | Inr v \<Rightarrow> Inr (u ''US $'' @ float_repr v))"
  using assms by (induction t s rule: convert_loop.induct) (auto split: if_splits)

lemma convert_loop_malformed:
  assumes "re_search_numeric s = None \<or>
           (\<exists>a. re_search_numeric s = Some a \<and> float_of_str (remove_commas a) = None)"
  shows "convert_loop t s = Inr s"
  using assms by (induction t s rule: convert_loop.induct) auto

lemma find_symbol:
  assumes "(k0, r0) \<in> set t" and "contains k0 s"
  shows "\<exists>k r. find (\<lambda>(k, r). contains k s) t = Some (k, r) \<and> (k, r) \<in> set t \<and> contains k s"
proof -
  from assms have "find (\<lambda>(k, r). contains k s) t \<noteq> None"
    by (auto simp: find_None_iff)
  then obtain k r where f: "find (\<lambda>(k, r). contains k s) t = Some (k, r)" by auto
  then have "(k, r) \<in> set t \<and> contains k s"
    by (auto simp: find_Some_iff in_set_conv_nth)
  with f show ?thesis by blast
qed

lemma rne_cases: "rne n d = Inf \<or> (\<exists>m e. rne n d = Fin m e)"
  by (auto simp: rne_def Let_def)

lemma float_of_str_rne: "float_of_str s = Some x \<Longrightarrow> \<exists>n d. x = rne n d"
  by (auto simp: float_of_str_def split: option.splits if_splits) blast+

lemma float_of_str_cases: "float_of_str s = Some x \<Longrightarrow> x = Inf \<or> (\<exists>m e. x = Fin m e)"
proof -
  assume "float_of_str s = Some x"
  then obtain n d where "x = rne n d" using float_of_str_rne by blast
  then show ?thesis using rne_cases[of n d] by simp
qed

lemma round_div_value:
  assumes "x = Inf \<or> (\<exists>m e. x = Fin m e)" and "m2 \<noteq> 0"
  shows "\<exists>q. truediv x (Fin m2 e2) = Inr q \<and> round_div x (Fin m2 e2) = Inr (round1 q) \<and>
             (round1 q = Inf \<or> (\<exists>n. round1 q = rne n 10))"
proof -
  from assms(1) show ?thesis
  proof
    assume "x = Inf"
    with assms(2) show ?thesis by (simp add: round_div_def)
  next
    assume "\<exists>m e. x = Fin m e"
    then obtain m e where x: "x = Fin m e" by auto
    obtain q where q: "truediv x (Fin m2 e2) = Inr q" "q = Inf \<or> (\<exists>m e. q = Fin m e)"
      using assms(2) x rne_cases by (auto split: if_splits)
    from q(2) have "round1 q = Inf \<or> (\<exists>n. round1 q = rne n 10)" by auto
    with q(1) show ?thesis by (simp add: round_div_def)
  qed
qed

section \<open>Worked conversions\<close>

lemmas numeric_ev = re_search_numeric_def numeric_char_def remove_commas_def all_decimal_def
  digits_value_def float_of_str_def decimal_ev

lemma ex_nt_search: "re_search_numeric (u ''NT$1,200'') = Some (u ''1,200'')"
  by (simp add: numeric_ev)
lemma ex_nt_float: "float_of_str (remove_commas (u ''1,200'')) = Some (Fin 5277655813324800 (- 42))"
  by (simp add: numeric_ev rne_ev)
lemma ex_nt_round_div:
  "round_div (Fin 5277655813324800 (- 42)) (Fin 4631107791820423 (- 47))
   = Inr (Fin 5136918324969472 (- 47))"
  by (simp add: round_div_def rne_ev frac_of_def)
lemma ex_365_frac: "frac_of 5136918324969472 (- 47) = (5136918324969472, 140737488355328)"
  by (simp add: frac_of_def)
lemma ex_365_log: "ilog10 5136918324969472 140737488355328 = 1"
  by (simp add: ilog10_def declen.simps Let_def)
lemma ex_365_shortest:
  "shortest (Fin 5136918324969472 (- 47)) 5136918324969472 140737488355328 1 1 = (365, - 1)"
  by (simp add: shortest.simps try_digits_def scaled_def rne10_def rne_ev)
lemma ex_365_digits: "shortest_digits 5136918324969472 (- 47) = (365, - 1)"
  by (simp add: shortest_digits_def ex_365_frac ex_365_log ex_365_shortest strip_zeros.simps)
lemma ex_365_repr: "float_repr (Fin 5136918324969472 (- 47)) = u ''36.5''"
  by (simp add: float_repr.simps ex_365_digits format_repr_def str_nat.simps)
lemma ex_nt_find:
  "find (\<lambda>(k, r). contains k (u ''NT$1,200'')) EXCHANGE_RATES = Some (u ''NT$'', Fin 4631107791820423 (- 47))"
  by (simp add: rates)
lemma ex_nt_convert: "convert_to_usd (u ''NT$1,200'') = Inr (u ''US $36.5'')"
  using convert_loop_first_match[OF ex_nt_find ex_nt_search ex_nt_float]
  by (simp add: convert_to_usd_def ex_nt_round_div ex_365_repr)
lemma ex_tbd: "convert_to_usd (u ''A$ TBD'') = Inr (u ''A$ TBD'')"
proof -
  have "re_search_numeric (u ''A$ TBD'') = None" by (simp add: numeric_ev)
  then show ?thesis unfolding convert_to_usd_def by (simp add: convert_loop_malformed)
qed

section \<open>Rounding to one decimal\<close>

lemma round_half_even_nearest:
  assumes "0 < d"
  shows "2 * round_half_even a d * d \<le> 2 * a + d \<and> 2 * a \<le> 2 * round_half_even a d * d + d \<and>
         ((2 * a = 2 * round_half_even a d * d + d \<or> 2 * a + d = 2 * round_half_even a d * d)
            \<longrightarrow> even (round_half_even a d))"
proof -
  define q where "q = a div d"
  define r where "r = a mod d"
  have a: "a = q * d + r" by (simp add: q_def r_def)
  have r: "r < d" using assms by (simp add: r_def)
  define N where "N = round_half_even a d"
  have n: "N = (if 2 * r < d then q else if d < 2 * r then q + 1
                else if even q then q else q + 1)"
    by (simp add: N_def round_half_even_def Let_def q_def r_def)
  have "2 * N * d \<le> 2 * a + d \<and> 2 * a \<le> 2 * N * d + d \<and>
         ((2 * a = 2 * N * d + d \<or> 2 * a + d = 2 * N * d) \<longrightarrow> even N)"
    unfolding n a using r by (auto simp: algebra_simps)
  then show ?thesis by (simp add: N_def)
qed

lemma frac_of_pos: "0 < snd (frac_of m e)"
  by (simp add: frac_of_def)

lemma round1_nearest: "\<exists>n. round1 (Fin m e) = rne n 10 \<and> nearest_tie_even (10 * m) e n"
  using round_half_even_nearest[where d = "snd (frac_of (10 * m) e)"
      and a = "fst (frac_of (10 * m) e)"] frac_of_pos[of "10 * m" e]
  by (auto simp: nearest_tie_even_def Let_def)

lemma ex_a_search: "re_search_numeric (u ''A$0.375'') = Some (u ''0.375'')"
  by (simp add: numeric_ev)
lemma ex_a_float: "float_of_str (remove_commas (u ''0.375'')) = Some (Fin 6755399441055744 (- 54))"
  by (simp add: numeric_ev rne_ev)
lemma ex_a_find:
  "find (\<lambda>(k, r). contains k (u ''A$0.375'')) EXCHANGE_RATES = Some (u ''A$'', Fin 6755399441055744 (- 52))"
  by (simp add: rates pound_key_def euro_key_def)
lemma ex_a_div:
  "truediv (Fin 6755399441055744 (- 54)) (Fin 6755399441055744 (- 52)) = Inr (Fin 4503599627370496 (- 54))"
  by (simp add: rne_ev)
lemma ex_a_round: "round1 (Fin 4503599627370496 (- 54)) = Fin 7205759403792794 (- 55)"
  by (simp add: rne_ev frac_of_def)
lemma ex_a_round_up: "round1_half_up (Fin 4503599627370496 (- 54)) = Fin 5404319552844595 (- 54)"
  by (simp add: rne_ev frac_of_def round_half_up_def)
lemma ex_02_shortest:
  "shortest (Fin 7205759403792794 (- 55)) 7205759403792794 36028797018963968 (- 1) 1 = (2, - 1)"
  by (simp add: shortest.simps try_digits_def scaled_def rne10_def rne_ev)
lemma ex_02_digits: "shortest_digits 7205759403792794 (- 55) = (2, - 1)"
proof -
  have f: "frac_of 7205759403792794 (- 55) = (7205759403792794, 36028797018963968)"
    by (simp add: frac_of_def)
  have l: "ilog10 7205759403792794 36028797018963968 = - 1"
    by (simp add: ilog10_def declen.simps Let_def)
  show ?thesis
    by (simp add: shortest_digits_def f l ex_02_shortest strip_zeros.simps)
qed
lemma ex_02_repr: "float_repr (Fin 7205759403792794 (- 55)) = u ''0.2''"
  by (simp add: float_repr.simps ex_02_digits format_repr_def str_nat.simps)
lemma ex_03_shortest:
  "shortest (Fin 5404319552844595 (- 54)) 5404319552844595 18014398509481984 (- 1) 1 = (3, - 1)"
  by (simp add: shortest.simps try_digits_def scaled_def rne10_def rne_ev)
lemma ex_03_digits: "shortest_digits 5404319552844595 (- 54) = (3, - 1)"
proof -
  have f: "frac_of 5404319552844595 (- 54) = (5404319552844595, 18014398509481984)"
    by (simp add: frac_of_def)
  have l: "ilog10 5404319552844595 18014398509481984 = - 1"
    by (simp add: ilog10_def declen.simps Let_def)
  show ?thesis
    by (simp add: shortest_digits_def f l ex_03_shortest strip_zeros.simps)
qed
lemma ex_03_repr: "float_repr (Fin 5404319552844595 (- 54)) = u ''0.3''"
  by (simp add: float_repr.simps ex_03_digits format_repr_def str_nat.simps)
lemma ex_a_round_div:
  "round_div (Fin 6755399441055744 (- 54)) (Fin 6755399441055744 (- 52))
   = Inr (Fin 7205759403792794 (- 55))"
  by (simp add: round_div_def rne_ev frac_of_def)
lemma ex_a_convert: "convert_to_usd (u ''A$0.375'') = Inr (u ''US $0.2'')"
  using convert_loop_first_match[OF ex_a_find ex_a_search ex_a_float]
  by (simp add: convert_to_usd_def ex_a_round_div ex_02_repr)
lemma ex_m_search: "re_search_numeric (u ''A$1.2.3'') = Some (u ''1.2.3'')"
  by (simp add: numeric_ev)
lemma ex_m_float: "float_of_str (remove_commas (u ''1.2.3'')) = None"
  by (simp add: numeric_ev)

lemma ex_c1_clean: "clean_price (u ''$10 to $20'') = u ''$10''"
  by (simp add: clean_price_def strip_def is_space_def before_def)
lemma ex_c1_nt: "normalize_nt (u ''$10'') = u ''$10''"
  by (simp add: normalize_nt_def)
lemma ex_c1_search: "re_search_numeric (u ''$10'') = Some (u ''10'')"
  by (simp add: numeric_ev)
lemma ex_c1_float: "float_of_str (remove_commas (u ''10'')) = Some (Fin 5629499534213120 (- 49))"
  by (simp add: numeric_ev rne_ev)
lemma ex_c1_round: "round1 (Fin 5629499534213120 (- 49)) = Fin 5629499534213120 (- 49)"
  by (simp add: rne_ev frac_of_def)
lemma ex_10_shortest:
  "shortest (Fin 5629499534213120 (- 49)) 5629499534213120 562949953421312 1 1 = (1, 1)"
  by (simp add: shortest.simps try_digits_def scaled_def rne10_def rne_ev)
lemma ex_10_digits: "shortest_digits 5629499534213120 (- 49) = (1, 1)"
proof -
  have f: "frac_of 5629499534213120 (- 49) = (5629499534213120, 562949953421312)"
    by (simp add: frac_of_def)
  have l: "ilog10 5629499534213120 562949953421312 = 1"
    by (simp add: ilog10_def declen.simps Let_def)
  show ?thesis
    by (simp add: shortest_digits_def f l ex_10_shortest strip_zeros.simps)
qed
lemma ex_10_repr: "float_repr (Fin 5629499534213120 (- 49)) = u ''10.0''"
  by (simp add: float_repr.simps ex_10_digits format_repr_def str_nat.simps)
lemma ex_c1_usd: "currency_to_usd (u ''$10'') = Inr (u ''US $10.0'', None)"
proof -
  have "float_repr (round1 (Fin 5629499534213120 (- 49))) = u ''10.0''"
    by (simp only: ex_c1_round ex_10_repr)
  then show ?thesis
    using ex_c1_search ex_c1_float by (simp add: currency_to_usd_def startswith_def)
qed
lemma ex_c1_price: "extract_price (Some (u ''$10 to $20'')) = Inr (u ''US $10.0'', None)"
  using ex_c1_clean ex_c1_nt ex_c1_usd by (simp add: extract_price_def)

section \<open>Facts about \<^verbatim>\<open>parse_product_listings\<close>\<close>

lemma convert_to_usd_total: "\<exists>t. convert_to_usd s = Inr t"
  using convert_loop_result[OF rates_nonzero, of s] by (auto simp: convert_to_usd_def)

lemma extract_price_total: "\<exists>p m. extract_price e = Inr (p, m)"
proof (cases e)
  case None
  then show ?thesis by (simp add: extract_price_def)
next
  case (Some raw)
  obtain t where "convert_to_usd (normalize_nt (clean_price raw)) = Inr t"
    using convert_to_usd_total by blast
  with Some show ?thesis
    by (auto simp: extract_price_def currency_to_usd_def split: option.splits)
qed

lemma parse_containers_items:
  "fst (parse_containers clock cs s) =
   map (\<lambda>c. \<lparr>title = extract_title c, price = price_of c, product_url = url_of c,
               image_url = extract_image c\<rparr>)
     (filter (\<lambda>c. \<not> shop_on_ebay c \<and> \<not> falsy (extract_url c)) cs)"
proof (induction cs arbitrary: s)
  case Nil
  then show ?case by simp
next
  case (Cons c cs)
  obtain p m where pm: "extract_price (price_elem c) = Inr (p, m)"
    using extract_price_total by blast
  then have "price_of c = p" by (simp add: price_of_def)
  with pm Cons show ?case
    by (simp add: Let_def url_of_def)
qed

lemmas item_ev = shop_on_ebay_def extract_url_def extract_title_def extract_image_def
  image_from_elem_def image_from_picture_def price_of_def url_of_def extract_price_def

section \<open>Facts about \<^verbatim>\<open>get_page\<close> and \<^verbatim>\<open>scrape\<close>\<close>

lemma add_status_update_fields [simp]:
  "products (add_status_update c m s) = products s"
  "is_running (add_status_update c m s) = is_running s"
  "base_url (add_status_update c m s) = base_url s"
  "status_updates (add_status_update c m s)
     = status_updates s @ [stamped (c (length (status_updates s))) m]"
  by (simp_all add: add_status_update_def)

lemma log_fields [simp]:
  "products (log env m s) = products s"
  "is_running (log env m s) = is_running s"
  "base_url (log env m s) = base_url s"
  "status_updates (log env m s)
     = status_updates s @ [stamped (time_at env (length (status_updates s))) m]"
  by (simp_all add: log_def)

lemma get_page_loop_fields:
  "products (snd (get_page_loop env k url as s)) = products s \<and>
   is_running (snd (get_page_loop env k url as s)) = is_running s \<and>
   base_url (snd (get_page_loop env k url as s)) = base_url s"
  by (induction as arbitrary: s) (auto simp: Let_def split: response.splits)

lemma get_page_fields [simp]:
  "products (snd (get_page env k url s)) = products s"
  "is_running (snd (get_page env k url s)) = is_running s"
  "base_url (snd (get_page env k url s)) = base_url s"
  using get_page_loop_fields by (simp_all add: get_page_def)

lemma parse_containers_fields:
  "products (snd (parse_containers c cs s)) = products s \<and>
   is_running (snd (parse_containers c cs s)) = is_running s \<and>
   base_url (snd (parse_containers c cs s)) = base_url s"
  by (induction cs arbitrary: s) (auto simp: Let_def split: sum.splits option.splits)

lemma parse_product_listings_fields [simp]:
  "products (snd (parse_product_listings c h s)) = products s"
  "is_running (snd (parse_product_listings c h s)) = is_running s"
  "base_url (snd (parse_product_listings c h s)) = base_url s"
  using parse_containers_fields
  by (simp_all add: parse_product_listings_def split: option.splits html.splits)

lemma get_page_three_failures:
  assumes "http_get env k 0 url = RequestException e0"
    and "http_get env k 1 url = RequestException e1"
    and "http_get env k 2 url = RequestException e2"
  shows "fst (get_page env k url s) = None \<and>
         status_updates (snd (get_page env k url s)) =
           status_updates s @
           [stamped (time_at env (length (status_updates s))) (error_msg url e0),
            stamped (time_at env (length (status_updates s) + 1))
              (retry_msg (fadd (rne 1 1) (jitter env k 0))),
            stamped (time_at env (length (status_updates s) + 2)) (error_msg url e1),
            stamped (time_at env (length (status_updates s) + 3))
              (retry_msg (fadd (rne 2 1) (jitter env k 1))),
            stamped (time_at env (length (status_updates s) + 4)) (error_msg url e2),
            stamped (time_at env (length (status_updates s) + 5))
              (u ''Max retries reached. Moving on.'')]"
proof -
  have up: "[0..<max_retries] = [0, 1, 2]"
    by (simp add: max_retries_def upt_rec)
  show ?thesis
    unfolding get_page_def up using assms
    by (simp add: Let_def max_retries_def eval_nat_numeral)
qed

lemma still_running: "is_running s \<Longrightarrow> s\<lparr>is_running := True\<rparr> = s"
  by (cases s) simp

lemma scrape_loop_break:
  assumes "url \<noteq> []" and "is_running s" and "\<not> stop_requested env k"
    and "scrape_body env max_pages url k s = Inl s'"
  shows "scrape_loop env max_pages (Some url) k s = Some s'"
  using assms by (subst scrape_loop.simps) (simp add: still_running)

lemma scrape_body_failed:
  assumes "\<not> truthy (fst (get_page env k url (log env (u ''Scraping page '' @ str_int k @ u ''...'') s)))"
  shows "scrape_body env max_pages url k s =
         Inl (log env (u ''Failed to fetch page content. Stopping.'')
                (snd (get_page env k url (log env (u ''Scraping page '' @ str_int k @ u ''...'') s))))"
  using assms by (simp add: scrape_body_def Let_def)

lemma scrape_body_no_products:
  assumes "fst (get_page env k url (log env (u ''Scraping page '' @ str_int k @ u ''...'') s))
           = Some (Doc soup)"
    and "fst (parse_product_listings (time_at env) (Some (Doc soup))
                (snd (get_page env k url (log env (u ''Scraping page '' @ str_int k @ u ''...'') s)))) = []"
  shows "scrape_body env max_pages url k s =
         Inl (log env (no_products_msg k)
                (snd (parse_product_listings (time_at env) (Some (Doc soup))
                   (snd (get_page env k url
                      (log env (u ''Scraping page '' @ str_int k @ u ''...'') s))))))"
  using assms by (simp add: scrape_body_def Let_def)

lemma ex_wait0: "retry_msg (fadd (rne 1 1) (Fin 4503599627370496 (- 53))) = u ''Retrying in 1.50 seconds...''"
proof -
  have a: "fadd (rne 1 1) (Fin 4503599627370496 (- 53)) = Fin 6755399441055744 (- 52)"
    by (simp add: rne_ev frac_of_def)
  have b: "format_2f (Fin 6755399441055744 (- 52)) = u ''1.50''"
    by (simp add: frac_of_def round_half_even_def Let_def str_nat.simps)
  show ?thesis by (simp only: retry_msg_def a b) simp
qed

lemma ex_wait1: "retry_msg (fadd (rne 2 1) (Fin 4503599627370496 (- 53))) = u ''Retrying in 2.50 seconds...''"
proof -
  have a: "fadd (rne 2 1) (Fin 4503599627370496 (- 53)) = Fin 5629499534213120 (- 51)"
    by (simp add: rne_ev frac_of_def)
  have b: "format_2f (Fin 5629499534213120 (- 51)) = u ''2.50''"
    by (simp add: frac_of_def round_half_even_def Let_def str_nat.simps)
  show ?thesis by (simp only: retry_msg_def a b) simp
qed

lemma parse_items_state_free:
  "fst (parse_product_listings c (Some (Doc soup)) s)
   = fst (parse_product_listings c (Some (Doc soup)) s')"
  by (simp add: parse_product_listings_def parse_containers_items)

section \<open>The pagination fallback\<close>

text \<open>
  Claim C9, as stated, fails in its last part: \<^verbatim>\<open>get_next_page_url\<close> does not always return
  a URL when no pagination control is found. On an empty page text, or on \<open>None\<close>, it
  returns \<open>None\<close> in its first lines, before it looks at the page or at the base URL.
\<close>

theorem init_empty_page_counterexample:
  "get_next_page_url unresolved
     (base_url (init (u ''https://www.ebay.com/sch/i.html?_nkw=phone''))) (Some Blank) 1 = None \<and>
   get_next_page_url unresolved
     (base_url (init (u ''https://www.ebay.com/sch/i.html?_nkw=phone''))) None 1 = None"
  by (simp add: get_next_page_url_def)

text \<open>
  Claim C9, amended. The constructor stores the supplied URL with the currency parameters
  appended, after \<^verbatim>\<open>&\<close> when the URL has a \<^verbatim>\<open>?\<close> and after \<^verbatim>\<open>?\<close> otherwise, so the stored base
  URL always has a query string: the split at \<^verbatim>\<open>?\<close> succeeds and the final
  \<^verbatim>\<open>return None\<close> of \<^verbatim>\<open>get_next_page_url\<close> is never reached. On a page with a non-empty text in
  which no pagination control with a target is found, the result is a URL that carries
  \<^verbatim>\<open>_pgn=\<close> followed by the current page number plus one. On an empty page text or \<open>None\<close>
  the result is \<open>None\<close>.
\<close>

theorem init_always_paginates:
  "base_url (init url) =
     url @ (if contains (u ''?'') url then u ''&_ccy=1&_fmt=US&_dmd=1''
            else u ''?_ccy=1&_fmt=US&_dmd=1'') \<and>
   contains (u ''?'') (base_url (init url)) \<and>
   split_first (u ''?'') (base_url (init url)) \<noteq> None \<and>
   (next_button_href soup = None \<longrightarrow>
      (\<exists>next_url. get_next_page_url urljoin (base_url (init url)) (Some (Doc soup)) n = Some next_url
                  \<and> contains (u ''_pgn='' @ str_int (n + 1)) next_url)) \<and>
   get_next_page_url urljoin (base_url (init url)) (Some Blank) n = None \<and>
   get_next_page_url urljoin (base_url (init url)) None n = None"
proof (intro conjI impI)
  show "base_url (init url) =
     url @ (if contains (u ''?'') url then u ''&_ccy=1&_fmt=US&_dmd=1''
            else u ''?_ccy=1&_fmt=US&_dmd=1'')"
    by (simp add: init_def)
  show c: "contains (u ''?'') (base_url (init url))" by (rule contains_init)
  then show s: "split_first (u ''?'') (base_url (init url)) \<noteq> None"
    by (simp add: split_first_None)
  show "get_next_page_url urljoin (base_url (init url)) (Some Blank) n = None"
    by (simp add: get_next_page_url_def)
  show "get_next_page_url urljoin (base_url (init url)) None n = None"
    by (simp add: get_next_page_url_def)
  assume nb: "next_button_href soup = None"
  from s obtain a b where ab: "split_first (u ''?'') (base_url (init url)) = Some (a, b)"
    by auto
  show "\<exists>next_url. get_next_page_url urljoin (base_url (init url)) (Some (Doc soup)) n = Some next_url
                  \<and> contains (u ''_pgn='' @ str_int (n + 1)) next_url"
  proof (cases "contains (u ''_pgn='') b")
    case True
    have "sublist (u ''_pgn='' @ str_int (n + 1))
            ((a @ u ''?'') @ join (u ''&'') (map (set_pgn n) (split_on 38 b)))"
      using set_pgn_in_query[OF True, of n] by (rule sublist_in_suffix)
    then show ?thesis
      using fallback_query[OF nb ab True] by (simp add: contains_sublist)
  next
    case False
    have "sublist (u ''_pgn='' @ str_int (n + 1))
            ((base_url (init url) @ u ''&'') @ (u ''_pgn='' @ str_int (n + 1)))"
      by (rule sublist_append_leftI)
    then show ?thesis
      using fallback_append[OF nb ab False] by (simp add: contains_sublist)
  qed
qed

theorem init_always_paginates_witness:
  "next_button_href no_pagination = None \<and>
   base_url (init (u ''https://www.ebay.com/sch/i.html?_nkw=phone''))
     = u ''https://www.ebay.com/sch/i.html?_nkw=phone&_ccy=1&_fmt=US&_dmd=1'' \<and>
   base_url (init (u ''https://www.ebay.com/sch/i.html''))
     = u ''https://www.ebay.com/sch/i.html?_ccy=1&_fmt=US&_dmd=1'' \<and>
   get_next_page_url unresolved (base_url (init (u ''https://www.ebay.com/sch/i.html?_nkw=phone'')))
     (Some (Doc no_pagination)) 1
   = Some (u ''https://www.ebay.com/sch/i.html?_nkw=phone&_ccy=1&_fmt=US&_dmd=1&_pgn=2'') \<and>
   (\<exists>next_url. get_next_page_url unresolved
        (base_url (init (u ''https://www.ebay.com/sch/i.html?_nkw=phone''))) (Some (Doc no_pagination)) 1
        = Some next_url \<and> contains (u ''_pgn='' @ str_int (1 + 1)) next_url)"
proof -
  have h: "next_button_href no_pagination = None"
    by (simp add: next_button_href_def no_pagination_def)
  have b1: "base_url (init (u ''https://www.ebay.com/sch/i.html?_nkw=phone''))
     = u ''https://www.ebay.com/sch/i.html?_nkw=phone&_ccy=1&_fmt=US&_dmd=1''"
    using init_always_paginates[of "u ''https://www.ebay.com/sch/i.html?_nkw=phone''"
        no_pagination unresolved 1]
    by simp
  have b2: "base_url (init (u ''https://www.ebay.com/sch/i.html''))
     = u ''https://www.ebay.com/sch/i.html?_ccy=1&_fmt=US&_dmd=1''"
    using init_always_paginates[of "u ''https://www.ebay.com/sch/i.html''"
        no_pagination unresolved 1]
    by simp
  have e: "get_next_page_url unresolved (base_url (init (u ''https://www.ebay.com/sch/i.html?_nkw=phone'')))
     (Some (Doc no_pagination)) 1
   = Some (u ''https://www.ebay.com/sch/i.html?_nkw=phone&_ccy=1&_fmt=US&_dmd=1&_pgn=2'')"
    by (simp add: get_next_page_url_def h init_def str_int_def str_nat.simps)
  from init_always_paginates[of "u ''https://www.ebay.com/sch/i.html?_nkw=phone''"
      no_pagination unresolved 1] h e b1 b2
  show ?thesis by blast
qed

text \<open>
  Claim C3, as stated, fails: the page-number parameter is not incremented, it is overwritten
  with the current page number plus one, whatever value the URL carried. With
  \<^verbatim>\<open>_pgn=5\<close> in the base URL and current page 1 the result carries \<^verbatim>\<open>_pgn=2\<close>, not
  \<^verbatim>\<open>_pgn=6\<close>.
\<close>

theorem next_url_stale_page_counterexample:
  "get_next_page_url unresolved (u ''https://www.ebay.com/sch/i.html?_pgn=5&_sop=12'')
     (Some (Doc no_pagination)) 1
   = Some (u ''https://www.ebay.com/sch/i.html?_pgn=2&_sop=12'') \<and>
   get_next_page_url unresolved (u ''https://www.ebay.com/sch/i.html?_pgn=5&_sop=12'')
     (Some (Doc no_pagination)) 1
   \<noteq> Some (u ''https://www.ebay.com/sch/i.html?_pgn=6&_sop=12'')"
  by (simp add: get_next_page_url_def next_button_href_def no_pagination_def set_pgn_def
        str_int_def str_nat.simps)

text \<open>
  Claim C3, amended. For a base URL \<open>base_part?p1&...&pk\<close> in which some parameter contains
  \<^verbatim>\<open>_pgn=\<close>, on a parsed page without a pagination control, the result is the base URL
  with the same number of parameters in the same order, every parameter that does not
  contain \<^verbatim>\<open>_pgn=\<close> kept as it is, and every parameter that starts with \<^verbatim>\<open>_pgn=\<close> replaced by
  \<^verbatim>\<open>_pgn=\<close> and the current page number plus one. In particular
  \<^verbatim>\<open>...?_pgn=2&_sop=12\<close> with current page 2 gives \<^verbatim>\<open>...?_pgn=3&_sop=12\<close>.
\<close>

theorem next_url_sets_page_number:
  assumes "63 \<notin> set base_part"
    and "params \<noteq> []"
    and "\<forall>p \<in> set params. 38 \<notin> set p"
    and "\<exists>p \<in> set params. contains (u ''_pgn='') p"
    and "next_button_href soup = None"
  shows "(\<exists>qs. get_next_page_url urljoin (base_part @ u ''?'' @ join (u ''&'') params)
                 (Some (Doc soup)) n
               = Some (base_part @ u ''?'' @ join (u ''&'') qs)
            \<and> length qs = length params
            \<and> (\<forall>i < length params.
                  (\<not> contains (u ''_pgn='') (params ! i) \<longrightarrow> qs ! i = params ! i) \<and>
                  (startswith (params ! i) (u ''_pgn='') \<longrightarrow>
                     qs ! i = u ''_pgn='' @ str_int (n + 1))))
         \<and> get_next_page_url urljoin (base_part @ u ''?_pgn=2&_sop=12'') (Some (Doc soup)) 2
             = Some (base_part @ u ''?_pgn=3&_sop=12'')"
proof (rule conjI)
  let ?q = "join (u ''&'') params"
  have sf: "split_first (u ''?'') (base_part @ u ''?'' @ ?q) = Some (base_part, ?q)"
    using split_first_single[OF assms(1), of ?q] by simp
  from assms(4) obtain p where p: "p \<in> set params" "sublist (u ''_pgn='') p"
    by (auto simp: contains_sublist)
  have "sublist (u ''_pgn='') ?q"
    using p(2) join_contains[OF p(1)] by (rule sublist_trans)
  then have c: "contains (u ''_pgn='') ?q" by (simp add: contains_sublist)
  have sp: "split_on 38 ?q = params"
    using split_on_join[OF assms(2), of 38] assms(3) by simp
  have r: "get_next_page_url urljoin (base_part @ u ''?'' @ ?q) (Some (Doc soup)) n
             = Some (base_part @ u ''?'' @ join (u ''&'') (map (set_pgn n) params))"
    using fallback_query[OF assms(5) sf c, of urljoin n] sp by simp
  have "\<forall>i < length params.
          (\<not> contains (u ''_pgn='') (params ! i) \<longrightarrow> map (set_pgn n) params ! i = params ! i) \<and>
          (startswith (params ! i) (u ''_pgn='') \<longrightarrow>
             map (set_pgn n) params ! i = u ''_pgn='' @ str_int (n + 1))"
    by (auto simp: set_pgn_def startswith_def contains_sublist dest: prefix_imp_sublist)
  with r show "\<exists>qs. get_next_page_url urljoin (base_part @ u ''?'' @ ?q) (Some (Doc soup)) n
               = Some (base_part @ u ''?'' @ join (u ''&'') qs)
            \<and> length qs = length params
            \<and> (\<forall>i < length params.
                  (\<not> contains (u ''_pgn='') (params ! i) \<longrightarrow> qs ! i = params ! i) \<and>
                  (startswith (params ! i) (u ''_pgn='') \<longrightarrow>
                     qs ! i = u ''_pgn='' @ str_int (n + 1)))"
    by (intro exI[of _ "map (set_pgn n) params"]) simp
next
  have sf: "split_first (u ''?'') (base_part @ u ''?_pgn=2&_sop=12'')
              = Some (base_part, u ''_pgn=2&_sop=12'')"
    using split_first_single[OF assms(1), of "u ''_pgn=2&_sop=12''"] by simp
  have c: "contains (u ''_pgn='') (u ''_pgn=2&_sop=12'')" by simp
  show "get_next_page_url urljoin (base_part @ u ''?_pgn=2&_sop=12'') (Some (Doc soup)) 2
             = Some (base_part @ u ''?_pgn=3&_sop=12'')"
    using fallback_query[OF assms(5) sf c, of urljoin 2]
    by (simp add: set_pgn_def str_int_def str_nat.simps)
qed

theorem next_url_sets_page_number_witness:
  "63 \<notin> set (u ''https://www.ebay.com/sch/i.html'') \<and>
   [u ''_nkw=phone'', u ''_pgn=2'', u ''_sop=12''] \<noteq> [] \<and>
   38 \<notin> set (u ''_nkw=phone'') \<and> 38 \<notin> set (u ''_pgn=2'') \<and> 38 \<notin> set (u ''_sop=12'') \<and>
   (\<exists>p \<in> set [u ''_nkw=phone'', u ''_pgn=2'', u ''_sop=12'']. contains (u ''_pgn='') p) \<and>
   next_button_href no_pagination = None \<and>
   get_next_page_url unresolved (u ''https://www.ebay.com/sch/i.html?_nkw=phone&_pgn=2&_sop=12'')
     (Some (Doc no_pagination)) 2
   = Some (u ''https://www.ebay.com/sch/i.html?_nkw=phone&_pgn=3&_sop=12'') \<and>
   get_next_page_url unresolved (u ''https://www.ebay.com/sch/i.html?_pgn=2&_sop=12'')
     (Some (Doc no_pagination)) 2
   = Some (u ''https://www.ebay.com/sch/i.html?_pgn=3&_sop=12'')"
proof -
  have h1: "63 \<notin> set (u ''https://www.ebay.com/sch/i.html'')" by simp
  have h2: "[u ''_nkw=phone'', u ''_pgn=2'', u ''_sop=12''] \<noteq> []" by simp
  have h3: "\<forall>p \<in> set [u ''_nkw=phone'', u ''_pgn=2'', u ''_sop=12'']. 38 \<notin> set p" by simp
  have h4: "\<exists>p \<in> set [u ''_nkw=phone'', u ''_pgn=2'', u ''_sop=12'']. contains (u ''_pgn='') p"
    by simp
  have h5: "next_button_href no_pagination = None"
    by (simp add: next_button_href_def no_pagination_def)
  have e: "get_next_page_url unresolved
             (u ''https://www.ebay.com/sch/i.html?_nkw=phone&_pgn=2&_sop=12'')
             (Some (Doc no_pagination)) 2
           = Some (u ''https://www.ebay.com/sch/i.html?_nkw=phone&_pgn=3&_sop=12'')"
    by (simp add: get_next_page_url_def h5 set_pgn_def str_int_def str_nat.simps)
  from next_url_sets_page_number[OF h1 h2 h3 h4 h5, of unresolved 2]
  have "get_next_page_url unresolved (u ''https://www.ebay.com/sch/i.html'' @ u ''?_pgn=2&_sop=12'')
          (Some (Doc no_pagination)) 2
        = Some (u ''https://www.ebay.com/sch/i.html'' @ u ''?_pgn=3&_sop=12'')"
    by (rule conjunct2)
  then have "get_next_page_url unresolved (u ''https://www.ebay.com/sch/i.html?_pgn=2&_sop=12'')
          (Some (Doc no_pagination)) 2
        = Some (u ''https://www.ebay.com/sch/i.html?_pgn=3&_sop=12'')"
    by simp
  moreover have "38 \<notin> set (u ''_nkw=phone'') \<and> 38 \<notin> set (u ''_pgn=2'') \<and> 38 \<notin> set (u ''_sop=12'')"
    by simp
  ultimately show ?thesis using h1 h2 h4 h5 e by blast
qed

section \<open>The currency conversion\<close>

text \<open>
  Claim C10. The branch of \<^verbatim>\<open>convert_to_usd\<close> for the pound and the euro computes the same
  \<^verbatim>\<open>round(amount / rate, 1)\<close> as the branch for the other symbols: \<open>convert_to_usd\<close> is equal,
  on every price text, to the conversion that divides uniformly.
\<close>

theorem convert_to_usd_uniform_division:
  "convert_to_usd price_str = convert_to_usd_uniform price_str"
proof -
  have "convert_loop t price_str = convert_uniform_loop t price_str" for t
    by (induction t price_str rule: convert_loop.induct) (simp_all split: option.splits)
  then show ?thesis by (simp add: convert_to_usd_def convert_to_usd_uniform_def)
qed

text \<open>
  Claim C8. \<open>convert_to_usd\<close> is idempotent: on every price text it returns a text (it does
  not raise), and applied to that text it returns it unchanged. A converted text is
  \<^verbatim>\<open>US $\<close> followed by the \<^verbatim>\<open>repr\<close> of a float, in which no key of the table occurs.
\<close>

theorem convert_to_usd_idempotent: "\<exists>t. convert_to_usd s = Inr t \<and> convert_to_usd t = Inr t"
proof -
  from convert_loop_result[OF rates_nonzero, of s]
  consider "convert_to_usd s = Inr s"
    | x where "convert_to_usd s = Inr (u ''US $'' @ float_repr x)"
    by (auto simp: convert_to_usd_def)
  then show ?thesis
  proof cases
    case 1
    then show ?thesis by auto
  next
    case 2
    have "\<forall>(k, r) \<in> set EXCHANGE_RATES. \<not> contains k (u ''US $'' @ float_repr x)"
      using symbol_not_in_output by auto
    then have "convert_to_usd (u ''US $'' @ float_repr x) = Inr (u ''US $'' @ float_repr x)"
      unfolding convert_to_usd_def by (rule convert_loop_no_symbol)
    with 2 show ?thesis by auto
  qed
qed

text \<open>
  Claim C4, as stated, fails: a text with a key of the table and no digit, comma or point
  is returned as it is, so the output need not begin with \<^verbatim>\<open>US $\<close>.
\<close>

theorem convert_to_usd_unparsed_counterexample:
  "(u ''A$'', rne 15 10) \<in> set EXCHANGE_RATES \<and>
   contains (u ''A$'') (u ''A$ TBD'') \<and>
   convert_to_usd (u ''A$ TBD'') = Inr (u ''A$ TBD'') \<and>
   \<not> startswith (u ''A$ TBD'') (u ''US $'')"
  using ex_tbd by (simp add: startswith_def EXCHANGE_RATES_def)

text \<open>
  Claim C4, amended. For every price text that contains a key of the table and whose first
  run of digits, commas and points reads as a number, the output is \<^verbatim>\<open>US $\<close> followed by the
  \<^verbatim>\<open>repr\<close> of \<^verbatim>\<open>round(amount / rate, 1)\<close>, where the rate is that of the first key, in the order of
  the table, that occurs in the text. That float is the double nearest to some \<open>n / 10\<close>, or
  infinity when the amount is out of the range of a double.
\<close>

theorem convert_to_usd_prefix_one_decimal:
  assumes "(k0, r0) \<in> set EXCHANGE_RATES"
    and "contains k0 price_str"
    and "re_search_numeric price_str = Some amount_str"
    and "float_of_str (remove_commas amount_str) = Some amount"
  shows "\<exists>k r q. find (\<lambda>(k, r). contains k price_str) EXCHANGE_RATES = Some (k, r)
           \<and> truediv amount r = Inr q
           \<and> convert_to_usd price_str = Inr (u ''US $'' @ float_repr (round1 q))
           \<and> startswith (u ''US $'' @ float_repr (round1 q)) (u ''US $'')
           \<and> (round1 q = Inf \<or> (\<exists>n. round1 q = rne n 10))"
proof -
  from find_symbol[OF assms(1,2)] obtain k r
    where f: "find (\<lambda>(k, r). contains k price_str) EXCHANGE_RATES = Some (k, r)"
      and m: "(k, r) \<in> set EXCHANGE_RATES"
    by blast
  from m rates_nonzero obtain m2 e2 where r: "r = Fin m2 e2" "m2 \<noteq> 0" by fastforce
  from round_div_value[OF float_of_str_cases[OF assms(4)] r(2), of e2] r(1)
  obtain q where q: "truediv amount r = Inr q" "round_div amount r = Inr (round1 q)"
      "round1 q = Inf \<or> (\<exists>n. round1 q = rne n 10)"
    by blast
  have "convert_to_usd price_str = Inr (u ''US $'' @ float_repr (round1 q))"
    using convert_loop_first_match[OF f assms(3,4)] q(2) by (simp add: convert_to_usd_def)
  moreover have "startswith (u ''US $'' @ float_repr (round1 q)) (u ''US $'')"
    by (simp add: startswith_def)
  ultimately show ?thesis using f q(1,3) by blast
qed

theorem convert_to_usd_prefix_one_decimal_witness:
  "(u ''NT$'', rne 32906 1000) \<in> set EXCHANGE_RATES \<and>
   contains (u ''NT$'') (u ''NT$1,200'') \<and>
   re_search_numeric (u ''NT$1,200'') = Some (u ''1,200'') \<and>
   float_of_str (remove_commas (u ''1,200'')) = Some (Fin 5277655813324800 (- 42)) \<and>
   convert_to_usd (u ''NT$1,200'') = Inr (u ''US $36.5'') \<and>
   (\<exists>k r q. find (\<lambda>(k, r). contains k (u ''NT$1,200'')) EXCHANGE_RATES = Some (k, r)
           \<and> truediv (Fin 5277655813324800 (- 42)) r = Inr q
           \<and> convert_to_usd (u ''NT$1,200'') = Inr (u ''US $'' @ float_repr (round1 q))
           \<and> startswith (u ''US $'' @ float_repr (round1 q)) (u ''US $'')
           \<and> (round1 q = Inf \<or> (\<exists>n. round1 q = rne n 10)))"
proof -
  have h1: "(u ''NT$'', rne 32906 1000) \<in> set EXCHANGE_RATES"
    by (simp add: EXCHANGE_RATES_def)
  have h2: "contains (u ''NT$'') (u ''NT$1,200'')" by simp
  from convert_to_usd_prefix_one_decimal[OF h1 h2 ex_nt_search ex_nt_float]
  show ?thesis using h1 h2 ex_nt_search ex_nt_float ex_nt_convert by blast
qed

text \<open>
  Claim C2, as stated, fails in its first half: \<^verbatim>\<open>round\<close> does not round half up. The text
  \<^verbatim>\<open>A$0.375\<close> is divided by the rate 1.5, the quotient is the double 0.25 exactly, and
  \<^verbatim>\<open>round(0.25, 1)\<close> is 0.2, so the output is \<^verbatim>\<open>US $0.2\<close>; rounding half up would give 0.3.
\<close>

theorem convert_to_usd_tie_counterexample:
  "convert_to_usd (u ''A$0.375'') = Inr (u ''US $0.2'') \<and>
   float_of_str (remove_commas (u ''0.375'')) = Some (Fin 6755399441055744 (- 54)) \<and>
   truediv (Fin 6755399441055744 (- 54)) (Fin 6755399441055744 (- 52))
     = Inr (Fin 4503599627370496 (- 54)) \<and>
   float_repr (round1_half_up (Fin 4503599627370496 (- 54))) = u ''0.3'' \<and>
   convert_to_usd (u ''A$0.375'')
     \<noteq> Inr (u ''US $'' @ float_repr (round1_half_up (Fin 4503599627370496 (- 54))))"
proof -
  have up: "float_repr (round1_half_up (Fin 4503599627370496 (- 54))) = u ''0.3''"
    by (simp only: ex_a_round_up ex_03_repr)
  have "convert_to_usd (u ''A$0.375'')
     \<noteq> Inr (u ''US $'' @ float_repr (round1_half_up (Fin 4503599627370496 (- 54))))"
    using ex_a_convert by (simp only: up) simp
  with ex_a_convert ex_a_float ex_a_div up show ?thesis by blast
qed

text \<open>
  Claim C2, amended. When the first run of digits, commas and points of a price text does
  not read as a number, \<open>convert_to_usd\<close> returns the text unchanged and does not raise.
  When it reads as a number and a key of the table occurs in the text, the converted amount
  is \<^verbatim>\<open>round(amount / rate, 1)\<close> for the first such key: for a finite quotient \<open>m * 2 ^ e\<close> it is
  the double nearest to \<open>n / 10\<close>, where \<open>n\<close> is the integer nearest to ten times the quotient,
  the even one when the quotient lies exactly half way (round half to even, on the binary
  value).
\<close>

theorem convert_to_usd_rounding_and_fallback:
  assumes "re_search_numeric price_str = Some amount_str"
  shows "(float_of_str (remove_commas amount_str) = None \<longrightarrow>
            convert_to_usd price_str = Inr price_str) \<and>
         (\<forall>k0 r0 amount.
            (k0, r0) \<in> set EXCHANGE_RATES \<and> contains k0 price_str \<and>
            float_of_str (remove_commas amount_str) = Some amount \<longrightarrow>
            (\<exists>k r q. find (\<lambda>(k, r). contains k price_str) EXCHANGE_RATES = Some (k, r)
               \<and> truediv amount r = Inr q
               \<and> convert_to_usd price_str = Inr (u ''US $'' @ float_repr (round1 q))
               \<and> (\<forall>m e. q = Fin m e \<longrightarrow>
                     (\<exists>n. round1 q = rne n 10 \<and> nearest_tie_even (10 * m) e n))))"
proof (intro conjI impI allI)
  assume "float_of_str (remove_commas amount_str) = None"
  with assms show "convert_to_usd price_str = Inr price_str"
    unfolding convert_to_usd_def by (intro convert_loop_malformed) blast
next
  fix k0 r0 amount
  assume h: "(k0, r0) \<in> set EXCHANGE_RATES \<and> contains k0 price_str \<and>
             float_of_str (remove_commas amount_str) = Some amount"
  then have h1: "(k0, r0) \<in> set EXCHANGE_RATES" and h2: "contains k0 price_str"
    and h3: "float_of_str (remove_commas amount_str) = Some amount" by auto
  from find_symbol[OF h1 h2] obtain k r
    where f: "find (\<lambda>(k, r). contains k price_str) EXCHANGE_RATES = Some (k, r)"
      and m: "(k, r) \<in> set EXCHANGE_RATES"
    by blast
  from m rates_nonzero obtain m2 e2 where r: "r = Fin m2 e2" "m2 \<noteq> 0" by fastforce
  from round_div_value[OF float_of_str_cases[OF h3] r(2), of e2] r(1)
  obtain q where q: "truediv amount r = Inr q" "round_div amount r = Inr (round1 q)"
    by blast
  have c: "convert_to_usd price_str = Inr (u ''US $'' @ float_repr (round1 q))"
    using convert_loop_first_match[OF f assms h3] q(2) by (simp add: convert_to_usd_def)
  have "\<forall>m e. q = Fin m e \<longrightarrow> (\<exists>n. round1 q = rne n 10 \<and> nearest_tie_even (10 * m) e n)"
    using round1_nearest by blast
  with f q(1) c
  show "\<exists>k r q. find (\<lambda>(k, r). contains k price_str) EXCHANGE_RATES = Some (k, r)
               \<and> truediv amount r = Inr q
               \<and> convert_to_usd price_str = Inr (u ''US $'' @ float_repr (round1 q))
               \<and> (\<forall>m e. q = Fin m e \<longrightarrow>
                     (\<exists>n. round1 q = rne n 10 \<and> nearest_tie_even (10 * m) e n))"
    by blast
qed

theorem convert_to_usd_rounding_and_fallback_witness:
  "re_search_numeric (u ''A$1.2.3'') = Some (u ''1.2.3'') \<and>
   float_of_str (remove_commas (u ''1.2.3'')) = None \<and>
   convert_to_usd (u ''A$1.2.3'') = Inr (u ''A$1.2.3'') \<and>
   re_search_numeric (u ''A$0.375'') = Some (u ''0.375'') \<and>
   (u ''A$'', rne 15 10) \<in> set EXCHANGE_RATES \<and>
   contains (u ''A$'') (u ''A$0.375'') \<and>
   float_of_str (remove_commas (u ''0.375'')) = Some (Fin 6755399441055744 (- 54)) \<and>
   (\<exists>k r q. find (\<lambda>(k, r). contains k (u ''A$0.375'')) EXCHANGE_RATES = Some (k, r)
      \<and> truediv (Fin 6755399441055744 (- 54)) r = Inr q
      \<and> convert_to_usd (u ''A$0.375'') = Inr (u ''US $'' @ float_repr (round1 q))) \<and>
   convert_to_usd (u ''A$0.375'') = Inr (u ''US $0.2'') \<and>
   nearest_tie_even (10 * 4503599627370496) (- 54) 2"
proof -
  have m: "convert_to_usd (u ''A$1.2.3'') = Inr (u ''A$1.2.3'')"
    using convert_to_usd_rounding_and_fallback[OF ex_m_search] ex_m_float by blast
  have h1: "(u ''A$'', rne 15 10) \<in> set EXCHANGE_RATES"
    by (simp add: EXCHANGE_RATES_def)
  have h2: "contains (u ''A$'') (u ''A$0.375'')" by simp
  have p: "\<exists>k r q. find (\<lambda>(k, r). contains k (u ''A$0.375'')) EXCHANGE_RATES = Some (k, r)
      \<and> truediv (Fin 6755399441055744 (- 54)) r = Inr q
      \<and> convert_to_usd (u ''A$0.375'') = Inr (u ''US $'' @ float_repr (round1 q))"
    using convert_to_usd_rounding_and_fallback[OF ex_a_search] h1 h2 ex_a_float by blast
  have n: "nearest_tie_even (10 * 4503599627370496) (- 54) 2"
    by (simp add: nearest_tie_even_def frac_of_def)
  show ?thesis
    using ex_m_search ex_m_float m ex_a_search h1 h2 ex_a_float p ex_a_convert n by blast
qed

section \<open>The extractor\<close>

text \<open>
  Claim C7, as stated, fails: an item with a URL is not always included. The placeholder
  item, whose title contains \<^verbatim>\<open>Shop on eBay\<close>, is skipped although it has a link.
\<close>

theorem placeholder_item_counterexample:
  "extract_url shop_item = Some (u ''https://www.ebay.com/itm/123'') \<and>
   fst (parse_product_listings midnight (Some (Doc shop_page)) phone_search) = []"
  by (simp add: parse_product_listings_def shop_page_def shop_item_def item_ev)

text \<open>
  Claim C7, amended. For every page, the output of the extractor is, in the order of the
  page, one record for each item that is not the placeholder and whose link has a
  non-empty \<^verbatim>\<open>href\<close>; every other item is left out. An item without a title element gets the
  title \<^verbatim>\<open>No Title\<close>, an item without a price element the price \<^verbatim>\<open>No Price\<close>, and an item
  without any image element no image.
\<close>

theorem parse_product_listings_keeps_linked_items:
  "fst (parse_product_listings clock (Some (Doc soup)) s) =
     map (\<lambda>c. \<lparr>title = extract_title c, price = price_of c, product_url = url_of c,
                 image_url = extract_image c\<rparr>)
       (filter (\<lambda>c. \<not> shop_on_ebay c \<and> \<not> falsy (extract_url c)) (s_items soup)) \<and>
   (title_elem c = None \<longrightarrow> extract_title c = u ''No Title'') \<and>
   (price_elem c = None \<longrightarrow> price_of c = u ''No Price'') \<and>
   (image_elem c = None \<and> picture_elem c = None \<and> all_imgs c = [] \<longrightarrow> extract_image c = None)"
proof (intro conjI impI)
  show "fst (parse_product_listings clock (Some (Doc soup)) s) =
     map (\<lambda>c. \<lparr>title = extract_title c, price = price_of c, product_url = url_of c,
                 image_url = extract_image c\<rparr>)
       (filter (\<lambda>c. \<not> shop_on_ebay c \<and> \<not> falsy (extract_url c)) (s_items soup))"
    by (simp add: parse_product_listings_def parse_containers_items)
next
  assume "title_elem c = None"
  then show "extract_title c = u ''No Title''" by (simp add: extract_title_def)
next
  assume "price_elem c = None"
  then show "price_of c = u ''No Price''" by (simp add: price_of_def extract_price_def)
next
  assume "image_elem c = None \<and> picture_elem c = None \<and> all_imgs c = []"
  then show "extract_image c = None"
    by (simp add: extract_image_def image_from_elem_def image_from_picture_def)
qed

theorem parse_product_listings_keeps_linked_items_witness:
  "title_elem bare_item = None \<and> price_elem bare_item = None \<and>
   image_elem bare_item = None \<and> picture_elem bare_item = None \<and> all_imgs bare_item = [] \<and>
   extract_url unlinked_item = None \<and>
   fst (parse_product_listings midnight (Some (Doc three_items)) phone_search) =
     [\<lparr>title = u ''No Title'', price = u ''No Price'',
       product_url = u ''https://www.ebay.com/itm/2'', image_url = None\<rparr>]"
proof -
  have b: "title_elem bare_item = None" "price_elem bare_item = None"
    "image_elem bare_item = None \<and> picture_elem bare_item = None \<and> all_imgs bare_item = []"
    by (simp_all add: bare_item_def)
  have un: "extract_url unlinked_item = None" by (simp add: extract_url_def unlinked_item_def)
  from parse_product_listings_keeps_linked_items[of midnight three_items phone_search bare_item] b
  have t: "extract_title bare_item = u ''No Title''" and p: "price_of bare_item = u ''No Price''"
    and i: "extract_image bare_item = None"
    and l: "fst (parse_product_listings midnight (Some (Doc three_items)) phone_search) =
     map (\<lambda>c. \<lparr>title = extract_title c, price = price_of c, product_url = url_of c,
                 image_url = extract_image c\<rparr>)
       (filter (\<lambda>c. \<not> shop_on_ebay c \<and> \<not> falsy (extract_url c)) (s_items three_items))"
    by blast+
  have f: "filter (\<lambda>c. \<not> shop_on_ebay c \<and> \<not> falsy (extract_url c)) (s_items three_items)
           = [bare_item]"
    by (simp add: three_items_def shop_item_def unlinked_item_def bare_item_def
          shop_on_ebay_def extract_url_def)
  have ur: "url_of bare_item = u ''https://www.ebay.com/itm/2''"
    by (simp add: url_of_def extract_url_def bare_item_def)
  have "fst (parse_product_listings midnight (Some (Doc three_items)) phone_search) =
     [\<lparr>title = u ''No Title'', price = u ''No Price'',
       product_url = u ''https://www.ebay.com/itm/2'', image_url = None\<rparr>]"
    unfolding l f using t p i ur by simp
  with b un show ?thesis by blast
qed

text \<open>
  Claim C1, as stated, fails in its last part: the price text \<^verbatim>\<open>$10 to $20\<close> is cut to
  \<^verbatim>\<open>$10\<close> before the currency is looked at, but the final price is \<^verbatim>\<open>US $10.0\<close>, not
  \<^verbatim>\<open>US $10\<close>: the number is read as a float, rounded to one decimal and written by an
  f-string, which writes the float 10.0 with its decimal.
\<close>

theorem price_range_counterexample:
  "clean_price (u ''$10 to $20'') = u ''$10'' \<and>
   extract_price (Some (u ''$10 to $20'')) = Inr (u ''US $10.0'', None) \<and>
   extract_price (Some (u ''$10 to $20'')) \<noteq> Inr (u ''US $10'', None)"
  using ex_c1_clean ex_c1_price by simp

text \<open>
  Claim C1, amended. For an item whose price element has the text \<^verbatim>\<open>$10 to $20\<close>, the range
  is cut to \<^verbatim>\<open>$10\<close> before the currency is looked at and the final price is exactly
  \<^verbatim>\<open>US $10.0\<close>; when the item is kept, that is the price of its record, and nothing is
  written to the log.
\<close>

theorem price_range_lower_bound:
  assumes "price_elem c = Some (u ''$10 to $20'')"
  shows "clean_price (u ''$10 to $20'') = u ''$10'' \<and>
         extract_price (price_elem c) = Inr (u ''US $10.0'', None) \<and>
         (\<not> shop_on_ebay c \<and> \<not> falsy (extract_url c) \<longrightarrow>
            map price (fst (parse_containers clock [c] s)) = [u ''US $10.0''] \<and>
            snd (parse_containers clock [c] s) = s)"
proof -
  have p: "extract_price (price_elem c) = Inr (u ''US $10.0'', None)"
    using assms ex_c1_price by simp
  then have "\<not> shop_on_ebay c \<and> \<not> falsy (extract_url c) \<longrightarrow>
            map price (fst (parse_containers clock [c] s)) = [u ''US $10.0''] \<and>
            snd (parse_containers clock [c] s) = s"
    by (simp add: Let_def)
  with p ex_c1_clean show ?thesis by blast
qed

theorem price_range_lower_bound_witness:
  "price_elem range_item = Some (u ''$10 to $20'') \<and>
   \<not> shop_on_ebay range_item \<and> \<not> falsy (extract_url range_item) \<and>
   clean_price (u ''$10 to $20'') = u ''$10'' \<and>
   map price (fst (parse_containers midnight [range_item] phone_search)) = [u ''US $10.0''] \<and>
   snd (parse_containers midnight [range_item] phone_search) = phone_search"
proof -
  have h: "price_elem range_item = Some (u ''$10 to $20'')" by (simp add: range_item_def)
  have k: "\<not> shop_on_ebay range_item \<and> \<not> falsy (extract_url range_item)"
    by (simp add: range_item_def shop_on_ebay_def extract_url_def)
  from price_range_lower_bound[OF h, of midnight phone_search] h k show ?thesis by blast
qed

section \<open>The fetcher and the job\<close>

text \<open>
  Claim C5, as stated, fails in its count: three failed attempts add six entries to the
  log, not four. Every failure is logged (three entries), the first two are each followed
  by a notice of the retry with the waiting time (two entries), and the third by the
  give-up entry.
\<close>

theorem get_page_log_counterexample:
  "fst (get_page offline 1 (u ''https://www.ebay.com/sch/i.html'') phone_search) = None \<and>
   status_updates (snd (get_page offline 1 (u ''https://www.ebay.com/sch/i.html'') phone_search)) =
     [u ''[00:00:00] Error fetching https://www.ebay.com/sch/i.html: timed out'',
      u ''[00:00:00] Retrying in 1.50 seconds...'',
      u ''[00:00:00] Error fetching https://www.ebay.com/sch/i.html: timed out'',
      u ''[00:00:00] Retrying in 2.50 seconds...'',
      u ''[00:00:00] Error fetching https://www.ebay.com/sch/i.html: timed out'',
      u ''[00:00:00] Max retries reached. Moving on.''] \<and>
   length (status_updates
     (snd (get_page offline 1 (u ''https://www.ebay.com/sch/i.html'') phone_search))) = 6"
proof -
  have h: "http_get offline 1 a (u ''https://www.ebay.com/sch/i.html'')
           = RequestException (u ''timed out'')" for a
    by (simp add: offline_def)
  have j: "jitter offline 1 a = Fin 4503599627370496 (- 53)" for a
    by (simp add: offline_def)
  have t: "time_at offline n = u ''00:00:00''" for n
    by (simp add: offline_def midnight_def)
  have e: "status_updates phone_search = []"
    by (simp add: phone_search_def init_def)
  from get_page_three_failures[OF h h h, of phone_search]
  show ?thesis
    by (simp only: j t e ex_wait0 ex_wait1) (simp add: stamped_def error_msg_def)
qed

text \<open>
  Claim C5, amended. When the three attempts at a URL all fail, \<open>get_page\<close> returns \<open>None\<close>
  and does not raise; the log gains exactly six entries: an error entry for each attempt,
  a retry notice after the first and after the second, and the give-up entry at the end.
  The loop of the job then logs that the page could not be fetched and stops, with the
  products collected so far unchanged.
\<close>

theorem get_page_gives_up_after_three_failures:
  assumes "http_get env k 0 url = RequestException e0"
    and "http_get env k 1 url = RequestException e1"
    and "http_get env k 2 url = RequestException e2"
  shows "fst (get_page env k url s) = None \<and>
         status_updates (snd (get_page env k url s)) =
           status_updates s @
           [stamped (time_at env (length (status_updates s))) (error_msg url e0),
            stamped (time_at env (length (status_updates s) + 1))
              (retry_msg (fadd (rne 1 1) (jitter env k 0))),
            stamped (time_at env (length (status_updates s) + 2)) (error_msg url e1),
            stamped (time_at env (length (status_updates s) + 3))
              (retry_msg (fadd (rne 2 1) (jitter env k 1))),
            stamped (time_at env (length (status_updates s) + 4)) (error_msg url e2),
            stamped (time_at env (length (status_updates s) + 5))
              (u ''Max retries reached. Moving on.'')] \<and>
         (url \<noteq> [] \<and> is_running s \<and> \<not> stop_requested env k \<longrightarrow>
            (\<exists>s'. scrape_loop env max_pages (Some url) k s = Some s' \<and>
                  products s' = products s \<and>
                  length (status_updates s') = length (status_updates s) + 8 \<and>
                  last (status_updates s') =
                    stamped (time_at env (length (status_updates s) + 7))
                      (u ''Failed to fetch page content. Stopping.'')))"
proof (intro conjI impI)
  show "fst (get_page env k url s) = None"
    using get_page_three_failures[OF assms] by blast
  show "status_updates (snd (get_page env k url s)) =
           status_updates s @
           [stamped (time_at env (length (status_updates s))) (error_msg url e0),
            stamped (time_at env (length (status_updates s) + 1))
              (retry_msg (fadd (rne 1 1) (jitter env k 0))),
            stamped (time_at env (length (status_updates s) + 2)) (error_msg url e1),
            stamped (time_at env (length (status_updates s) + 3))
              (retry_msg (fadd (rne 2 1) (jitter env k 1))),
            stamped (time_at env (length (status_updates s) + 4)) (error_msg url e2),
            stamped (time_at env (length (status_updates s) + 5))
              (u ''Max retries reached. Moving on.'')]"
    using get_page_three_failures[OF assms] by blast
next
  assume run: "url \<noteq> [] \<and> is_running s \<and> \<not> stop_requested env k"
  define s1 where "s1 = log env (u ''Scraping page '' @ str_int k @ u ''...'') s"
  define s2 where "s2 = snd (get_page env k url s1)"
  define s3 where "s3 = log env (u ''Failed to fetch page content. Stopping.'') s2"
  have g: "fst (get_page env k url s1) = None"
    and l: "length (status_updates s2) = length (status_updates s1) + 6"
    using get_page_three_failures[OF assms, of s1] by (simp_all add: s2_def)
  have l1: "length (status_updates s1) = length (status_updates s) + 1"
    by (simp add: s1_def)
  have "scrape_body env max_pages url k s = Inl s3"
    using scrape_body_failed[of env k url s max_pages] g
    by (simp add: s1_def s2_def s3_def)
  with run have "scrape_loop env max_pages (Some url) k s = Some s3"
    by (intro scrape_loop_break) auto
  moreover have "products s3 = products s"
    by (simp add: s3_def s2_def s1_def)
  moreover have "length (status_updates s3) = length (status_updates s) + 8"
    using l l1 by (simp add: s3_def)
  moreover have "last (status_updates s3) =
      stamped (time_at env (length (status_updates s) + 7))
        (u ''Failed to fetch page content. Stopping.'')"
    using l l1 by (simp add: s3_def add.commute)
  ultimately show "\<exists>s'. scrape_loop env max_pages (Some url) k s = Some s' \<and>
                  products s' = products s \<and>
                  length (status_updates s') = length (status_updates s) + 8 \<and>
                  last (status_updates s') =
                    stamped (time_at env (length (status_updates s) + 7))
                      (u ''Failed to fetch page content. Stopping.'')"
    by blast
qed

theorem get_page_gives_up_after_three_failures_witness:
  "http_get offline 1 0 (base_url mid_run) = RequestException (u ''timed out'') \<and>
   http_get offline 1 1 (base_url mid_run) = RequestException (u ''timed out'') \<and>
   http_get offline 1 2 (base_url mid_run) = RequestException (u ''timed out'') \<and>
   base_url mid_run \<noteq> [] \<and> is_running mid_run \<and> \<not> stop_requested offline 1 \<and>
   fst (get_page offline 1 (base_url mid_run) mid_run) = None \<and>
   (\<exists>s'. scrape_loop offline None (Some (base_url mid_run)) 1 mid_run = Some s' \<and>
         products s' = products mid_run \<and>
         length (status_updates s') = length (status_updates mid_run) + 8 \<and>
         last (status_updates s') =
           stamped (time_at offline (length (status_updates mid_run) + 7))
             (u ''Failed to fetch page content. Stopping.''))"
proof -
  have h: "http_get offline 1 a (base_url mid_run) = RequestException (u ''timed out'')" for a
    by (simp add: offline_def)
  have r: "base_url mid_run \<noteq> [] \<and> is_running mid_run \<and> \<not> stop_requested offline 1"
    by (simp add: mid_run_def phone_search_def init_def offline_def)
  from get_page_gives_up_after_three_failures[OF h h h, of mid_run None] h r
  show ?thesis by blast
qed

text \<open>
  Claim C6, as stated, fails: a page can be fetched with success and yield no item without
  the job logging that no products were found. When the body of the response is the empty
  text, \<open>get_page\<close> returns it, the test of line 287 takes it for a failed fetch, and the
  loop stops with the entry that the page content could not be fetched.
\<close>

theorem empty_body_counterexample:
  "fst (get_page empty_body 2 (base_url mid_run)
          (log empty_body (u ''Scraping page '' @ str_int 2 @ u ''...'') mid_run)) = Some Blank \<and>
   fst (parse_product_listings (time_at empty_body) (Some Blank) mid_run) = [] \<and>
   map_option status_updates
     (scrape_loop empty_body None (Some (base_url mid_run)) 2 mid_run) =
     Some [u ''[00:00:00] Scraping page 2...'',
           u ''[00:00:00] Failed to fetch page content. Stopping.'']"
proof -
  define s1 where "s1 = log empty_body (u ''Scraping page '' @ str_int 2 @ u ''...'') mid_run"
  have up: "[0..<max_retries] = [0, 1, 2]"
    by (simp add: max_retries_def upt_rec)
  have g: "get_page empty_body 2 (base_url mid_run) s1 = (Some Blank, s1)"
    unfolding get_page_def up by (simp add: empty_body_def)
  have r: "base_url mid_run \<noteq> []" "is_running mid_run" "\<not> stop_requested empty_body 2"
    by (simp_all add: mid_run_def phone_search_def init_def empty_body_def)
  have "scrape_body empty_body None (base_url mid_run) 2 mid_run =
        Inl (log empty_body (u ''Failed to fetch page content. Stopping.'') s1)"
    using scrape_body_failed[of empty_body 2 "base_url mid_run" mid_run None] g
    by (simp add: s1_def)
  with r have l: "scrape_loop empty_body None (Some (base_url mid_run)) 2 mid_run =
        Some (log empty_body (u ''Failed to fetch page content. Stopping.'') s1)"
    by (intro scrape_loop_break)
  have t: "time_at empty_body n = u ''00:00:00''" for n
    by (simp add: empty_body_def midnight_def)
  have e: "status_updates mid_run = []" by (simp add: mid_run_def)
  have su: "status_updates (log empty_body (u ''Failed to fetch page content. Stopping.'') s1) =
        [u ''[00:00:00] Scraping page 2...'',
         u ''[00:00:00] Failed to fetch page content. Stopping.'']"
    by (simp add: s1_def e t stamped_def str_int_def str_nat.simps)
  have "map_option status_updates
     (scrape_loop empty_body None (Some (base_url mid_run)) 2 mid_run) =
     Some [u ''[00:00:00] Scraping page 2...'',
           u ''[00:00:00] Failed to fetch page content. Stopping.'']"
    unfolding l option.map su by (rule refl)
  moreover have "fst (get_page empty_body 2 (base_url mid_run) s1) = Some Blank"
    using g by simp
  moreover have "fst (parse_product_listings (time_at empty_body) (Some Blank) mid_run) = []"
    by (simp add: parse_product_listings_def)
  ultimately show ?thesis unfolding s1_def by blast
qed

text \<open>
  Claim C6, amended. When the loop of the job is at a page that is fetched with a non-empty
  text and from which no item is extracted, the loop stops there: it returns, the products
  collected on the pages before are unchanged, and the last entry of the log is the message
  that no products were found on that page. What follows the loop is the normal end of the
  job: the entry that the scraping is complete, the return of the products, and
  \<^verbatim>\<open>is_running\<close> cleared.
\<close>

theorem empty_page_stops_normally:
  assumes "url \<noteq> []" and "is_running s" and "\<not> stop_requested env k"
    and "fst (get_page env k url (log env (u ''Scraping page '' @ str_int k @ u ''...'') s))
         = Some (Doc soup)"
    and "fst (parse_product_listings (time_at env) (Some (Doc soup)) s) = []"
  shows "\<exists>s'. scrape_loop env max_pages (Some url) k s = Some s' \<and>
              products s' = products s \<and>
              last (status_updates s') =
                stamped (time_at env (length (status_updates s') - 1)) (no_products_msg k) \<and>
              fst (scrape_end env s') = products s \<and>
              \<not> is_running (snd (scrape_end env s')) \<and>
              status_updates (snd (scrape_end env s')) =
                status_updates s' @
                [stamped (time_at env (length (status_updates s')))
                   (complete_msg (length (products s)))]"
proof -
  define s1 where "s1 = log env (u ''Scraping page '' @ str_int k @ u ''...'') s"
  define s2 where "s2 = snd (get_page env k url s1)"
  define s3 where "s3 = snd (parse_product_listings (time_at env) (Some (Doc soup)) s2)"
  define s4 where "s4 = log env (no_products_msg k) s3"
  have e: "fst (parse_product_listings (time_at env) (Some (Doc soup)) s2) = []"
    using assms(5) parse_items_state_free[of "time_at env" soup s2 s] by simp
  have "scrape_body env max_pages url k s = Inl s4"
    using scrape_body_no_products[of env k url s soup max_pages] assms(4) e
    by (simp add: s1_def s2_def s3_def s4_def)
  with assms(1-3) have l: "scrape_loop env max_pages (Some url) k s = Some s4"
    by (intro scrape_loop_break) auto
  have p: "products s4 = products s"
    by (simp add: s4_def s3_def s2_def s1_def)
  have r: "is_running s4"
    using assms(2) by (simp add: s4_def s3_def s2_def s1_def)
  have la: "last (status_updates s4) =
            stamped (time_at env (length (status_updates s4) - 1)) (no_products_msg k)"
    by (simp add: s4_def)
  have en: "fst (scrape_end env s4) = products s \<and> \<not> is_running (snd (scrape_end env s4)) \<and>
            status_updates (snd (scrape_end env s4)) =
              status_updates s4 @
              [stamped (time_at env (length (status_updates s4)))
                 (complete_msg (length (products s)))]"
    using p r by (simp add: scrape_end_def Let_def)
  from l p la en show ?thesis by blast
qed

theorem empty_page_stops_normally_witness:
  "base_url mid_run \<noteq> [] \<and> is_running mid_run \<and> \<not> stop_requested end_of_results 2 \<and>
   fst (get_page end_of_results 2 (base_url mid_run)
          (log end_of_results (u ''Scraping page '' @ str_int 2 @ u ''...'') mid_run))
     = Some (Doc shop_page) \<and>
   fst (parse_product_listings (time_at end_of_results) (Some (Doc shop_page)) mid_run) = [] \<and>
   (\<exists>s'. scrape_loop end_of_results None (Some (base_url mid_run)) 2 mid_run = Some s' \<and>
         products s' = products mid_run \<and>
         last (status_updates s') =
           stamped (time_at end_of_results (length (status_updates s') - 1)) (no_products_msg 2) \<and>
         fst (scrape_end end_of_results s') = products mid_run \<and>
         \<not> is_running (snd (scrape_end end_of_results s')))"
proof -
  have r: "base_url mid_run \<noteq> []" "is_running mid_run" "\<not> stop_requested end_of_results 2"
    by (simp_all add: mid_run_def phone_search_def init_def end_of_results_def)
  have up: "[0..<max_retries] = [0, 1, 2]"
    by (simp add: max_retries_def upt_rec)
  have g: "fst (get_page end_of_results 2 (base_url mid_run)
          (log end_of_results (u ''Scraping page '' @ str_int 2 @ u ''...'') mid_run))
     = Some (Doc shop_page)"
    unfolding get_page_def up by (simp add: end_of_results_def)
  have e: "fst (parse_product_listings (time_at end_of_results) (Some (Doc shop_page)) mid_run) = []"
    by (simp add: parse_product_listings_def shop_page_def shop_item_def shop_on_ebay_def)
  from empty_page_stops_normally[OF r g e, of None] r g e show ?thesis by blast
qed

end
